theory Spec2Isabelle
  imports Complex_Main "HOL-Library.Word"
begin

unbundle bit_operations_syntax

section \<open>Token Authority (server.js)\<close>

text \<open>
  Text is kept as the list of its UTF-8 bytes, one \<^typ>\<open>char\<close> per byte, so that
  \<open>Buffer.from(str)\<close> and \<open>buf.toString('utf8')\<close> are the identity on the
  representation. (The replacement of ill-formed byte sequences by U+FFFD in
  \<open>toString\<close> is not represented: it changes no byte below 0x80 and makes no white
  space, so \<open>split(':')\<close>, \<open>parseInt\<close> and the hex decoder give the same results.)
  Numbers are the integers, which is exact for every time that \<open>Date.now()\<close> can give
  and for every sum of such a time and the token lifetime (all below \<open>2^53\<close> in
  absolute value); \<open>Date.now()\<close> is the parameter \<open>now\<close>. The keyed hash
  \<open>crypto.createHmac('sha256', secret).update(data).digest()\<close> belongs to the
  platform and is the parameter \<open>hmac\<close>, a function from key and data to a 256-bit
  digest.
\<close>

subsection \<open>Platform functions: hex, base64url, split, parseInt, number to string\<close>

text \<open>The 32 bytes of a digest, most significant first.\<close>

definition digest_bytes :: "256 word \<Rightarrow> 8 word list" where
  "digest_bytes w = map (\<lambda>i. ucast (drop_bit (8 * (31 - i)) w)) [0..<32]"

definition hexdigit :: "nat \<Rightarrow> char" where
  "hexdigit n = (if n < 10 then char_of (48 + n) else char_of (87 + n))"

definition hex_of_byte :: "8 word \<Rightarrow> string" where
  "hex_of_byte b = [hexdigit (unat b div 16), hexdigit (unat b mod 16)]"

text \<open>\<open>digest('hex')\<close>: 64 lower-case hexadecimal characters.\<close>

definition hexdigest :: "256 word \<Rightarrow> string" where
  "hexdigest w = concat (map hex_of_byte (digest_bytes w))"

definition unhex :: "char \<Rightarrow> nat option" where
  "unhex c = (let n = (of_char c :: nat) in
     if 48 \<le> n \<and> n \<le> 57 then Some (n - 48)
     else if 97 \<le> n \<and> n \<le> 102 then Some (n - 87)
     else if 65 \<le> n \<and> n \<le> 70 then Some (n - 55)
     else None)"

text \<open>
  \<open>Buffer.from(s, 'hex')\<close>: pairs of hexadecimal characters are decoded until the first
  pair that is not one; what follows, and a trailing single character, is dropped.
\<close>

fun bufferFromHex :: "string \<Rightarrow> 8 word list" where
  "bufferFromHex (c # d # rest) =
     (case unhex c of
        None \<Rightarrow> []
      | Some h \<Rightarrow> (case unhex d of
          None \<Rightarrow> []
        | Some l \<Rightarrow> of_nat (16 * h + l) # bufferFromHex rest))"
| "bufferFromHex [c] = []"
| "bufferFromHex [] = []"

definition b64char :: "nat \<Rightarrow> char" where
  "b64char n =
     (if n < 26 then char_of (65 + n)
      else if n < 52 then char_of (71 + n)
      else if n < 62 then char_of (n - 4)
      else if n = 62 then CHR ''-''
      else CHR ''_'')"

text \<open>\<open>buf.toString('base64url')\<close>: the URL-safe alphabet, no padding.\<close>

fun base64url_encode :: "string \<Rightarrow> string" where
  "base64url_encode (a # b # c # rest) =
     (let x = (of_char a :: nat); y = (of_char b :: nat); z = (of_char c :: nat) in
      b64char (x div 4) # b64char ((x mod 4) * 16 + y div 16) #
      b64char ((y mod 16) * 4 + z div 64) # b64char (z mod 64) # base64url_encode rest)"
| "base64url_encode [a, b] =
     (let x = (of_char a :: nat); y = (of_char b :: nat) in
      [b64char (x div 4), b64char ((x mod 4) * 16 + y div 16), b64char ((y mod 16) * 4)])"
| "base64url_encode [a] =
     (let x = (of_char a :: nat) in [b64char (x div 4), b64char ((x mod 4) * 16)])"
| "base64url_encode [] = []"

definition unbase64 :: "char \<Rightarrow> nat option" where
  "unbase64 c = (let n = (of_char c :: nat) in
     if 65 \<le> n \<and> n \<le> 90 then Some (n - 65)
     else if 97 \<le> n \<and> n \<le> 122 then Some (n - 71)
     else if 48 \<le> n \<and> n \<le> 57 then Some (n + 4)
     else if c = CHR ''-'' \<or> c = CHR ''+'' then Some 62
     else if c = CHR ''_'' \<or> c = CHR ''/'' then Some 63
     else None)"

fun b64_groups :: "nat list \<Rightarrow> string" where
  "b64_groups (p # q # r # s # rest) =
     char_of (p * 4 + q div 16) # char_of ((q mod 16) * 16 + r div 4) #
     char_of ((r mod 4) * 64 + s) # b64_groups rest"
| "b64_groups [p, q, r] = [char_of (p * 4 + q div 16), char_of ((q mod 16) * 16 + r div 4)]"
| "b64_groups [p, q] = [char_of (p * 4 + q div 16)]"
| "b64_groups [p] = []"
| "b64_groups [] = []"

text \<open>
  \<open>Buffer.from(s, 'base64url')\<close>: decoding is lenient. It stops at the first \<open>=\<close>,
  passes over every character outside the alphabet (both the URL-safe and the standard
  alphabet are accepted), and decodes what remains in groups of four.
\<close>

definition base64url_decode :: "string \<Rightarrow> string" where
  "base64url_decode s =
     b64_groups (List.map_filter unbase64 (takeWhile (\<lambda>c. c \<noteq> CHR ''='') s))"

text \<open>\<open>s.split(':')\<close>: always at least one field.\<close>

fun split_colon :: "string \<Rightarrow> string list" where
  "split_colon [] = [[]]"
| "split_colon (c # cs) =
     (if c = CHR '':'' then [] # split_colon cs
      else (case split_colon cs of p # ps \<Rightarrow> (c # p) # ps | [] \<Rightarrow> [[c]]))"

text \<open>
  The white space and line terminators that \<open>parseInt\<close> strips from the start of its
  argument, as UTF-8 byte sequences: TAB, LF, VT, FF, CR, SP, U+00A0, U+1680,
  U+2000 to U+200A, U+2028, U+2029, U+202F, U+205F, U+3000, U+FEFF.
\<close>

definition white_space :: "nat list list" where
  "white_space =
     [[9], [10], [11], [12], [13], [32], [0xC2, 0xA0], [0xE1, 0x9A, 0x80]] @
     map (\<lambda>k. [0xE2, 0x80, 0x80 + k]) [0..<11] @
     [[0xE2, 0x80, 0xA8], [0xE2, 0x80, 0xA9], [0xE2, 0x80, 0xAF], [0xE2, 0x81, 0x9F],
      [0xE3, 0x80, 0x80], [0xEF, 0xBB, 0xBF]]"

definition ws_len :: "string \<Rightarrow> nat" where
  "ws_len s =
     (case find (\<lambda>w. take (length w) (map of_char s) = w) white_space of
        None \<Rightarrow> 0
      | Some w \<Rightarrow> length w)"

function trimStart :: "string \<Rightarrow> string" where
  "trimStart s = (if ws_len s = 0 \<or> s = [] then s else trimStart (drop (ws_len s) s))"
  by pat_completeness auto
termination
  by (relation "measure length") auto

declare trimStart.simps [simp del]

definition is_digit :: "char \<Rightarrow> bool" where
  "is_digit c \<longleftrightarrow> 48 \<le> (of_char c :: nat) \<and> (of_char c :: nat) \<le> 57"

definition digit_val :: "char \<Rightarrow> nat" where
  "digit_val c = of_char c - 48"

text \<open>
  \<open>parseInt(str, 10)\<close>: leading white space is stripped, one sign is read, then the
  longest run of decimal digits; \<open>None\<close> is NaN (no digit).
\<close>

definition parseInt :: "string \<Rightarrow> int option" where
  "parseInt str =
     (let s = trimStart str;
          neg = (s \<noteq> [] \<and> hd s = CHR ''-'');
          s' = (if s \<noteq> [] \<and> (hd s = CHR ''+'' \<or> hd s = CHR ''-'') then tl s else s);
          z = takeWhile is_digit s'
      in if z = [] then None
         else Some ((if neg then - 1 else 1) * int (foldl (\<lambda>a c. 10 * a + digit_val c) 0 z)))"

fun digits :: "nat \<Rightarrow> string" where
  "digits n = (if n < 10 then [char_of (48 + n)] else digits (n div 10) @ [char_of (48 + n mod 10)])"

declare digits.simps [simp del]

text \<open>The text of an integer inside a template literal.\<close>

definition numberToString :: "int \<Rightarrow> string" where
  "numberToString i = (if i < 0 then CHR ''-'' # digits (nat (- i)) else digits (nat i))"

subsection \<open>Minting and verifying\<close>

definition TOKEN_EXPIRY_MS :: int where
  "TOKEN_EXPIRY_MS = 7 * 24 * 60 * 60 * 1000"

text \<open>
  A secret or a token is absent (\<open>None\<close>) or a string; JavaScript's \<open>!v\<close> holds of the
  absent value and of the empty string.
\<close>

definition falsy :: "string option \<Rightarrow> bool" where
  "falsy v \<longleftrightarrow> v = None \<or> v = Some []"

text \<open>\<open>generateSignedToken\<close>; \<open>Inl\<close> is the message of the thrown Error.\<close>

definition generateSignedToken ::
  "(string \<Rightarrow> string \<Rightarrow> 256 word) \<Rightarrow> string \<Rightarrow> string option \<Rightarrow> int \<Rightarrow> string + string" where
  "generateSignedToken hmac installationId secret now =
     (if falsy secret then Inl ''SITE_PLAN_SECRET is required to generate tokens''
      else
        let expiry = now + TOKEN_EXPIRY_MS;
            data = installationId @ '':'' @ numberToString expiry;
            signature = hexdigest (hmac (the secret) data)
        in Inr (base64url_encode (numberToString expiry @ '':'' @ signature)))"

datatype verify_result = Valid | Invalid string

text \<open>
  \<open>verifySignedToken\<close>. The \<open>try\<close> block can throw in two places, both answered by
  the \<open>catch\<close> with ``Invalid token format'': \<open>Buffer.from(undefined, 'hex')\<close> when the
  decoded text has no second field, and \<open>crypto.timingSafeEqual\<close> when the two buffers
  differ in length.
\<close>

definition verifySignedToken ::
  "(string \<Rightarrow> string \<Rightarrow> 256 word) \<Rightarrow> string \<Rightarrow> string option \<Rightarrow> string option \<Rightarrow> int
     \<Rightarrow> verify_result" where
  "verifySignedToken hmac installationId token secret now =
     (if falsy secret then Valid
      else if falsy token then Invalid ''Missing authentication token''
      else
        let decoded = base64url_decode (the token);
            parts = split_colon decoded;
            expiryStr = hd parts;
            providedSignature = (if 1 < length parts then Some (parts ! 1) else None)
        in (case parseInt expiryStr of
              None \<Rightarrow> Invalid ''Token has expired''
            | Some expiry \<Rightarrow>
                if now > expiry then Invalid ''Token has expired''
                else
                  let data = installationId @ '':'' @ numberToString expiry;
                      expectedSignature = hexdigest (hmac (the secret) data)
                  in (case providedSignature of
                        None \<Rightarrow> Invalid ''Invalid token format''
                      | Some sig \<Rightarrow>
                          let a = bufferFromHex sig; b = bufferFromHex expectedSignature
                          in if length a \<noteq> length b then Invalid ''Invalid token format''
                             else if a \<noteq> b then Invalid ''Invalid token signature''
                             else Valid)))"

text \<open>
  A stand-in for the platform's keyed hash, used only where the model is evaluated at a
  concrete input: the digest is the first byte of the data.
\<close>

definition sample_hmac :: "string \<Rightarrow> string \<Rightarrow> 256 word" where
  "sample_hmac key data = (if data = [] then 0 else of_nat (of_char (hd data)))"

section \<open>Annotation Session (public/app.js)\<close>

text \<open>
  The module-level variables and the part of the page they drive become one record that
  every handler takes and returns. Canvas coordinates are real numbers, and the
  arithmetic on them rounds as the source's IEEE doubles do (see \<open>fl\<close> below). The canvas
  is the list \<open>canvas.getObjects()\<close>, bottom object first. The button highlighting and the instruction text of \<open>selectTool\<close> are functions
  of the tool alone and are left out, as are \<open>console\<close> output and \<open>currentLine\<close>, which
  is never anything but \<open>null\<close>. Repositioning a placed marker by dragging is done by
  the canvas library, not by \<open>app.js\<close>, and is no event of the model.
\<close>

datatype tool = Idu | Odu | Line

datatype canvas_object =
    UnitGroup string real real string
  | PointMarker real real
  | LineSegment real real real real "nat list option"
  | Background

text \<open>
  \<open>UnitGroup label left top fill\<close> is the group that \<open>placeUnit\<close> builds, with its
  \<open>unitLabel\<close>; \<open>PointMarker left top\<close> is a circle with \<open>isLinePoint\<close>;
  \<open>LineSegment x1 y1 x2 y2 dash\<close> is a line with \<open>isLineSegment\<close> and its
  \<open>strokeDashArray\<close> (\<open>None\<close> is \<open>null\<close>, a solid line); \<open>Background\<close> is a grid line or
  the text of the placeholder background, which carries none of the three marks.
\<close>

fun unitLabel :: "canvas_object \<Rightarrow> string option" where
  "unitLabel (UnitGroup label x y fill) = Some label"
| "unitLabel obj = None"

fun isLinePoint :: "canvas_object \<Rightarrow> bool" where
  "isLinePoint (PointMarker x y) = True"
| "isLinePoint obj = False"

fun isLineSegment :: "canvas_object \<Rightarrow> bool" where
  "isLineSegment (LineSegment x1 y1 x2 y2 dash) = True"
| "isLineSegment obj = False"

fun strokeDashArray :: "canvas_object \<Rightarrow> nat list option" where
  "strokeDashArray (LineSegment x1 y1 x2 y2 dash) = dash"
| "strokeDashArray obj = None"

record session =
  currentTool :: tool
  iduPlaced :: bool
  oduPlaced :: bool
  linePoints :: "(real \<times> real) list"
  objects :: "canvas_object list"
  saveDisabled :: bool
  saveText :: string
  spinnerHidden :: bool
  successModalHidden :: bool
  alerts :: "string list"

definition selectTool :: "tool \<Rightarrow> session \<Rightarrow> session" where
  "selectTool t s = s\<lparr>currentTool := t\<rparr>"

definition updateSaveButton :: "session \<Rightarrow> session" where
  "updateSaveButton s = (let canSave = (iduPlaced s \<or> oduPlaced s) in s\<lparr>saveDisabled := \<not> canSave\<rparr>)"

definition placeUnit :: "string \<Rightarrow> real \<Rightarrow> real \<Rightarrow> string \<Rightarrow> session \<Rightarrow> session" where
  "placeUnit label x y color s =
     s\<lparr>objects := filter (\<lambda>obj. unitLabel obj \<noteq> Some label) (objects s) @
                    [UnitGroup label x y color]\<rparr>"

fun set_solid :: "canvas_object \<Rightarrow> canvas_object" where
  "set_solid (LineSegment x1 y1 x2 y2 dash) = LineSegment x1 y1 x2 y2 None"
| "set_solid obj = obj"

definition finishLine :: "session \<Rightarrow> session" where
  "finishLine s =
     (if length (linePoints s) < 2 then s
      else selectTool Idu (s\<lparr>objects := map set_solid (objects s)\<rparr>))"

text \<open>
  Double arithmetic. A number is a double when it is a multiple of the quantum of its
  binade, \<open>2^(e - 52)\<close> for \<open>2^e \<le> |x| < 2^(e + 1)\<close> (and \<open>2^(-1074)\<close> below
  \<open>2^(-1022)\<close>). The result of an operation is its exact result rounded to the nearest
  double, a tie going to the even multiple. Results beyond the largest double, which
  the source has as \<open>Infinity\<close>, stay finite here: neither is below 30.
\<close>

definition rne :: "real \<Rightarrow> int" where
  "rne z = (let f = \<lfloor>z\<rfloor> in
     if z - of_int f < 1 / 2 then f
     else if 1 / 2 < z - of_int f then f + 1
     else if even f then f else f + 1)"

definition quantum :: "real \<Rightarrow> real" where
  "quantum x = 2 powr (of_int (max \<lfloor>log 2 \<bar>x\<bar>\<rfloor> (- 1022)) - 52)"

definition fl :: "real \<Rightarrow> real" where
  "fl x = (if x = 0 then 0 else of_int (rne (x / quantum x)) * quantum x)"

text \<open>
  \<open>Math.sqrt(Math.pow(x - lastPoint.x, 2) + Math.pow(y - lastPoint.y, 2))\<close>: every
  operation rounds, the square and the root included (\<open>Math.pow(d, 2)\<close> is taken as
  the correctly rounded product \<open>d * d\<close>, \<open>Math.sqrt\<close> as the correctly rounded root).
\<close>

definition distance :: "real \<Rightarrow> real \<Rightarrow> real \<times> real \<Rightarrow> real" where
  "distance x y lastPoint =
     (let dx = fl (x - fst lastPoint); dy = fl (y - snd lastPoint)
      in fl (sqrt (fl (fl (dx * dx) + fl (dy * dy)))))"

text \<open>
  \<open>addLinePoint\<close>. A new segment is added to the canvas and then sent to the back, which
  puts it first in the list of objects.
\<close>

definition addLinePoint :: "real \<Rightarrow> real \<Rightarrow> session \<Rightarrow> session" where
  "addLinePoint x y s =
     (if 1 < length (linePoints s) \<and> distance x y (last (linePoints s)) < 30
      then finishLine s
      else
        let pts = linePoints s @ [(x, y)];
            objs = objects s @ [PointMarker x y];
            objs' = (if 1 < length pts
                     then (let prevPoint = pts ! (length pts - 2)
                           in LineSegment (fst prevPoint) (snd prevPoint) x y (Some [8, 4]) # objs)
                     else objs)
        in updateSaveButton (s\<lparr>linePoints := pts, objects := objs'\<rparr>))"

text \<open>
  \<open>handleCanvasTap\<close>: \<open>target\<close> is \<open>opt.target\<close>, the interactive object under the
  pointer if the canvas library found one, and \<open>x\<close>, \<open>y\<close> the pointer.
\<close>

definition handleCanvasTap :: "canvas_object option \<Rightarrow> real \<Rightarrow> real \<Rightarrow> session \<Rightarrow> session" where
  "handleCanvasTap target x y s =
     (if target \<noteq> None then s
      else (case currentTool s of
              Idu \<Rightarrow> updateSaveButton ((placeUnit ''IDU'' x y ''#3b82f6'' s)\<lparr>iduPlaced := True\<rparr>)
            | Odu \<Rightarrow> updateSaveButton ((placeUnit ''ODU'' x y ''#f97316'' s)\<lparr>oduPlaced := True\<rparr>)
            | Line \<Rightarrow> addLinePoint x y s))"

definition removable :: "canvas_object \<Rightarrow> bool" where
  "removable obj \<longleftrightarrow>
     (case unitLabel obj of None \<Rightarrow> False | Some label \<Rightarrow> label \<noteq> []) \<or>
     isLinePoint obj \<or> isLineSegment obj"

definition clearAll :: "session \<Rightarrow> session" where
  "clearAll s =
     updateSaveButton
       (s\<lparr>objects := filter (\<lambda>obj. \<not> removable obj) (objects s),
          iduPlaced := False, oduPlaced := False, linePoints := []\<rparr>)"

text \<open>
  How the export of \<open>savePlacement\<close> ends: the upload is answered with a success status;
  or with another status, the body's \<open>error\<close> field given if it has one; or something
  inside the \<open>try\<close> block throws (the canvas export, the network), with the message of
  the error.
\<close>

datatype upload_outcome = Uploaded | UploadRejected "string option" | UploadThrew string

definition failure_message :: "upload_outcome \<Rightarrow> string" where
  "failure_message outcome =
     (case outcome of
        UploadThrew m \<Rightarrow> m
      | UploadRejected (Some e) \<Rightarrow> (if e = [] then ''Upload failed'' else e)
      | UploadRejected None \<Rightarrow> ''Upload failed''
      | Uploaded \<Rightarrow> [])"

text \<open>
  \<open>savePlacement\<close>, from the click to the end of the upload. The handler itself touches
  the save button, the spinner, the success modal and the alert, and nothing else.
\<close>

definition savePlacement :: "upload_outcome \<Rightarrow> session \<Rightarrow> session" where
  "savePlacement outcome s =
     (if saveDisabled s then s
      else
        let s1 = s\<lparr>saveDisabled := True, saveText := ''Saving...'', spinnerHidden := False\<rparr>
        in (case outcome of
              Uploaded \<Rightarrow> s1\<lparr>successModalHidden := False\<rparr>
            | _ \<Rightarrow> s1\<lparr>alerts := alerts s1 @ [''Failed to save: '' @ failure_message outcome],
                      saveDisabled := False, saveText := ''Save Site Plan'',
                      spinnerHidden := True\<rparr>))"

definition closeSuccessModal :: "session \<Rightarrow> session" where
  "closeSuccessModal s =
     s\<lparr>successModalHidden := True, saveDisabled := False, saveText := ''Save Site Plan'',
       spinnerHidden := True\<rparr>"

text \<open>The handlers that \<open>setupToolHandlers\<close> and \<open>initCanvas\<close> register, as events.\<close>

datatype event =
    Tap "canvas_object option" real real
  | SelectTool tool
  | ClearAll
  | SavePlacement upload_outcome
  | CloseSuccessModal

fun handle :: "session \<Rightarrow> event \<Rightarrow> session" where
  "handle s (Tap target x y) = handleCanvasTap target x y s"
| "handle s (SelectTool t) = selectTool t s"
| "handle s ClearAll = clearAll s"
| "handle s (SavePlacement outcome) = savePlacement outcome s"
| "handle s CloseSuccessModal = closeSuccessModal s"

definition run :: "event list \<Rightarrow> session \<Rightarrow> session" where
  "run events s = foldl handle s events"

text \<open>
  A session as the page load leaves it: the variables as \<open>app.js\<close> initialises them, and
  a canvas with nothing on it but placeholder background. The state of the page's own
  elements (the save button, the modal) comes from the HTML and is left open.
\<close>

definition initial :: "session \<Rightarrow> bool" where
  "initial s \<longleftrightarrow>
     currentTool s = Idu \<and> \<not> iduPlaced s \<and> \<not> oduPlaced s \<and> linePoints s = [] \<and>
     list_all (\<lambda>obj. obj = Background) (objects s)"

definition fresh_session :: session where
  "fresh_session =
     \<lparr>currentTool = Idu, iduPlaced = False, oduPlaced = False, linePoints = [],
      objects = [Background], saveDisabled = True, saveText = ''Save Site Plan'',
      spinnerHidden = True, successModalHidden = True, alerts = []\<rparr>"

text \<open>The positions of the markers of one unit type that are on the canvas.\<close>

fun unit_position :: "string \<Rightarrow> canvas_object \<Rightarrow> (real \<times> real) option" where
  "unit_position label (UnitGroup l x y fill) = (if l = label then Some (x, y) else None)"
| "unit_position label obj = None"

definition markers :: "string \<Rightarrow> session \<Rightarrow> (real \<times> real) list" where
  "markers label s = List.map_filter (unit_position label) (objects s)"

definition save_eligible :: "session \<Rightarrow> bool" where
  "save_eligible s \<longleftrightarrow> \<not> saveDisabled s"

text \<open>Sessions used where the model is evaluated at a concrete input.\<close>

definition one_point_session :: session where
  "one_point_session = run [SelectTool Line, Tap None 0 0] fresh_session"

definition path_session :: session where
  "path_session = run [SelectTool Line, Tap None 0 0, Tap None 100 0] fresh_session"

text \<open>
  A path that ends at the origin, and a point given by two doubles (written as
  fractions; in decimal 19.995577974002366 and 22.36463416838271).
\<close>

definition corner_session :: session where
  "corner_session = run [SelectTool Line, Tap None 100 0, Tap None 0 0] fresh_session"

definition boundary_x :: real where
  "boundary_x = 2814127422274211 / 2 ^ 47"

definition boundary_y :: real where
  "boundary_y = 6295084881687865 / 2 ^ 48"

definition has_marker :: "session \<Rightarrow> bool" where
  "has_marker s \<longleftrightarrow> markers ''IDU'' s \<noteq> [] \<or> markers ''ODU'' s \<noteq> []"

text \<open>
  What every reachable session satisfies: at most one marker of each unit type, and the
  two flags say whether the marker is on the canvas.
\<close>

definition session_invariant :: "session \<Rightarrow> bool" where
  "session_invariant s \<longleftrightarrow>
     length (markers ''IDU'' s) \<le> 1 \<and> length (markers ''ODU'' s) \<le> 1 \<and>
     (iduPlaced s \<longleftrightarrow> markers ''IDU'' s \<noteq> []) \<and>
     (oduPlaced s \<longleftrightarrow> markers ''ODU'' s \<noteq> [])"

section \<open>Installation Gateway (server.js, src/hubspot-client.js)\<close>

text \<open>
  The three requests to the CRM are made by the platform; how each one ends is an input
  of the model. A request ends with a response (status code, body text, and what
  \<open>JSON.parse\<close> makes of the body) or with an \<open>error\<close> event carrying a message.
  Of a parsed body only the fields that the code reads are kept; a body that parses to
  \<open>null\<close>, on which reading any field throws inside the same \<open>try\<close>, is a \<open>ParseError\<close>
  with the message of that TypeError.
\<close>

datatype 'a parsed = ParseError string | Parsed 'a

datatype 'a request_end = Responded nat string "'a parsed" | RequestError string

record upload_body =
  body_id :: "string option"
  body_url :: "string option"
  body_message :: "string option"

text \<open>
  \<open>engagement\<close> is \<open>None\<close> when the body has no \<open>engagement\<close> object, and otherwise holds
  its \<open>id\<close>, which may itself be missing.
\<close>

record note_body =
  engagement :: "string option option"
  note_message :: "string option"

text \<open>A promise settles by resolving or rejecting (with the message of the Error).\<close>

datatype 'a settled = Resolved 'a | Rejected string | Unsettled

text \<open>
  \<open>https.request\<close> throws before anything is sent when the request path holds a
  character outside U+0021 to U+00FF, or the value of a header a character other than
  TAB, U+0020 to U+007E and U+0080 to U+00FF. Each of the three calls is made inside a
  Promise executor, so the throw rejects that promise. On the UTF-8 bytes of the text,
  a character above U+00FF is one whose first byte is 0xC4 or more.
\<close>

definition invalid_path_char :: "char \<Rightarrow> bool" where
  "invalid_path_char c \<longleftrightarrow> (of_char c :: nat) \<le> 0x20 \<or> 0xC4 \<le> (of_char c :: nat)"

definition invalid_header_char :: "char \<Rightarrow> bool" where
  "invalid_header_char c \<longleftrightarrow>
     ((of_char c :: nat) < 0x20 \<and> (of_char c :: nat) \<noteq> 9) \<or> (of_char c :: nat) = 0x7F \<or>
     0xC4 \<le> (of_char c :: nat)"

definition request_throws :: "string \<Rightarrow> string \<Rightarrow> string option" where
  "request_throws path accessToken =
     (if list_ex invalid_path_char path
      then Some ''Request path contains unescaped characters''
      else if list_ex invalid_header_char (''Bearer '' @ accessToken)
      then Some (''Invalid character in header content ['' @ [CHR 0x22] @ ''Authorization'' @
                 [CHR 0x22] @ '']'')
      else None)"

text \<open>\<open>parsed.message || `HTTP ${res.statusCode}: ${data}`\<close>\<close>

definition http_error_message :: "string option \<Rightarrow> nat \<Rightarrow> string \<Rightarrow> string" where
  "http_error_message message status data =
     (if message = None \<or> message = Some [] then ''HTTP '' @ digits status @ '': '' @ data
      else the message)"

definition uploadFileToHubSpot ::
  "string \<Rightarrow> upload_body request_end \<Rightarrow> (string option \<times> string option) settled" where
  "uploadFileToHubSpot accessToken upload =
     (case request_throws ''/files/v3/files'' accessToken of
        Some thrown \<Rightarrow> Rejected thrown
      | None \<Rightarrow>
          (case upload of
             RequestError m \<Rightarrow> Rejected m
           | Responded status data (ParseError m) \<Rightarrow> Rejected (''Parse error: '' @ m)
           | Responded status data (Parsed body) \<Rightarrow>
               if status = 201 \<or> status = 200 then Resolved (body_id body, body_url body)
               else Rejected (http_error_message (body_message body) status data)))"

text \<open>The text of a value inside a template literal, \<open>undefined\<close> when it is missing.\<close>

definition template_text :: "string option \<Rightarrow> string" where
  "template_text v = (case v of None \<Rightarrow> ''undefined'' | Some text \<Rightarrow> text)"

definition association_path :: "string option \<Rightarrow> string \<Rightarrow> string" where
  "association_path engagementId installationId =
     ''/crm/v4/objects/notes/'' @ template_text engagementId @
     ''/associations/2-31703261/'' @ installationId"

text \<open>
  \<open>associateEngagementToInstallation\<close>. Once the request is made the promise does not
  reject: a status outside 200 to 299 and an \<open>error\<close> event both resolve. With a status
  inside that range and a non-empty body that is not JSON, \<open>JSON.parse\<close> throws inside
  the response callback, outside any \<open>try\<close>, and the promise never settles.
\<close>

definition associateEngagementToInstallation ::
  "string option \<Rightarrow> string \<Rightarrow> string \<Rightarrow> unit request_end \<Rightarrow> unit settled" where
  "associateEngagementToInstallation engagementId installationId accessToken association =
     (case request_throws (association_path engagementId installationId) accessToken of
        Some thrown \<Rightarrow> Rejected thrown
      | None \<Rightarrow>
          (case association of
             RequestError m \<Rightarrow> Resolved ()
           | Responded status data body \<Rightarrow>
               if 200 \<le> status \<and> status < 300
               then (if data = [] then Resolved ()
                     else (case body of ParseError m \<Rightarrow> Unsettled | Parsed u \<Rightarrow> Resolved ()))
               else Resolved ()))"

text \<open>The message of the TypeError for reading \<open>id\<close> of a missing \<open>engagement\<close>.\<close>

definition missing_engagement :: string where
  "missing_engagement =
     ''Cannot read properties of undefined (reading '' @ [CHR 0x27] @ ''id'' @ [CHR 0x27] @ '')''"

text \<open>
  \<open>attachFileToInstallation\<close>. A rejection of the association is caught by the \<open>try\<close>
  around the \<open>await\<close> and passed on as a ``Parse error''.
\<close>

definition attachFileToInstallation ::
  "string \<Rightarrow> string \<Rightarrow> note_body request_end \<Rightarrow> unit request_end \<Rightarrow> unit settled" where
  "attachFileToInstallation installationId accessToken note association =
     (case request_throws ''/engagements/v1/engagements'' accessToken of
        Some thrown \<Rightarrow> Rejected thrown
      | None \<Rightarrow>
          (case note of
             RequestError m \<Rightarrow> Rejected m
           | Responded status data (ParseError m) \<Rightarrow> Rejected (''Parse error: '' @ m)
           | Responded status data (Parsed body) \<Rightarrow>
               if status = 200 \<or> status = 201
               then (case engagement body of
                       None \<Rightarrow> Rejected (''Parse error: '' @ missing_engagement)
                     | Some engagementId \<Rightarrow>
                         (case associateEngagementToInstallation engagementId installationId
                                 accessToken association of
                            Resolved u \<Rightarrow> Resolved ()
                          | Rejected m \<Rightarrow> Rejected (''Parse error: '' @ m)
                          | Unsettled \<Rightarrow> Unsettled))
               else Rejected (http_error_message (note_message body) status data)))"

datatype response_body =
    ErrorBody string
  | DeniedBody string
  | SavedBody "string option" string string

text \<open>
  \<open>ErrorBody error\<close> is \<open>{error}\<close>; \<open>DeniedBody message\<close> is
  \<open>{error: 'Access denied', message}\<close>; \<open>SavedBody fileId fileName message\<close> is
  \<open>{success: true, fileId, fileName, message}\<close>. A request is answered with a status
  and a body, or not at all.
\<close>

datatype response = Response nat response_body | NoResponse

text \<open>\<open>error.message || 'Failed to save site plan'\<close>\<close>

definition save_error :: "string \<Rightarrow> response" where
  "save_error m = Response 500 (ErrorBody (if m = [] then ''Failed to save site plan'' else m))"

text \<open>
  The handler of \<open>POST /api/installation/:id/placement\<close>. \<open>file\<close> is \<open>req.file\<close>, the
  uploaded image if there is one, and \<open>timestamp\<close> the ISO time that goes into the file
  name.
\<close>

definition placement_handler ::
  "string option \<Rightarrow> string \<Rightarrow> string option \<Rightarrow> string \<Rightarrow>
   upload_body request_end \<Rightarrow> note_body request_end \<Rightarrow> unit request_end \<Rightarrow> response" where
  "placement_handler HUBSPOT_TOKEN installationId file timestamp upload note association =
     (if falsy HUBSPOT_TOKEN then Response 500 (ErrorBody ''HubSpot not configured'')
      else if file = None then Response 400 (ErrorBody ''No image provided'')
      else
        let fileName = ''site-plan-'' @ installationId @ ''-'' @ timestamp @ ''.png''
        in (case uploadFileToHubSpot (the HUBSPOT_TOKEN) upload of
              Rejected m \<Rightarrow> save_error m
            | Unsettled \<Rightarrow> NoResponse
            | Resolved (fileId, url) \<Rightarrow>
                (case attachFileToInstallation installationId (the HUBSPOT_TOKEN) note
                        association of
                   Rejected m \<Rightarrow> save_error m
                 | Unsettled \<Rightarrow> NoResponse
                 | Resolved u \<Rightarrow>
                     Response 200 (SavedBody fileId fileName ''Site plan saved successfully''))))"

text \<open>\<open>requireAuth\<close>, in front of the handler: \<open>Inl\<close> is the rejection it sends.\<close>

definition requireAuth ::
  "(string \<Rightarrow> string \<Rightarrow> 256 word) \<Rightarrow> string option \<Rightarrow> string \<Rightarrow> string option \<Rightarrow> int
     \<Rightarrow> response + unit" where
  "requireAuth hmac SITE_PLAN_SECRET installationId token now =
     (case verifySignedToken hmac installationId token SITE_PLAN_SECRET now of
        Valid \<Rightarrow> Inr ()
      | Invalid reason \<Rightarrow> Inl (Response 403 (DeniedBody reason)))"

definition placement_endpoint ::
  "(string \<Rightarrow> string \<Rightarrow> 256 word) \<Rightarrow> string option \<Rightarrow> string option \<Rightarrow> int \<Rightarrow>
   string option \<Rightarrow> string \<Rightarrow> string option \<Rightarrow> string \<Rightarrow>
   upload_body request_end \<Rightarrow> note_body request_end \<Rightarrow> unit request_end \<Rightarrow> response" where
  "placement_endpoint hmac SITE_PLAN_SECRET token now HUBSPOT_TOKEN installationId file timestamp
       upload note association =
     (case requireAuth hmac SITE_PLAN_SECRET installationId token now of
        Inl rejection \<Rightarrow> rejection
      | Inr u \<Rightarrow>
          placement_handler HUBSPOT_TOKEN installationId file timestamp upload note association)"

text \<open>
  The note was created: the request was answered 200 or 201 with a JSON body whose
  \<open>engagement\<close> has the given id. The association failed: the request was answered with
  a status outside 200 to 299, or ended with an \<open>error\<close> event.
\<close>

definition note_created :: "note_body request_end \<Rightarrow> string option \<Rightarrow> bool" where
  "note_created note engagementId =
     (case note of
        Responded status data (Parsed body) \<Rightarrow>
          (status = 200 \<or> status = 201) \<and> engagement body = Some engagementId
      | _ \<Rightarrow> False)"

definition association_failed :: "unit request_end \<Rightarrow> bool" where
  "association_failed association =
     (case association of
        RequestError m \<Rightarrow> True
      | Responded status data body \<Rightarrow> \<not> (200 \<le> status \<and> status < 300))"

text \<open>An upload that the file store answers with 201 and the new file's id and URL.\<close>

definition stored_upload :: "upload_body request_end" where
  "stored_upload =
     Responded 201 ''{}''
       (Parsed \<lparr>body_id = Some ''f1'', body_url = Some ''u1'', body_message = None\<rparr>)"

section \<open>Properties of the Token Authority\<close>

subsection \<open>base64url: decoding undoes encoding\<close>

lemma of_char_lt_256: "(of_char c :: nat) < 256"
  using range_nat_of_char by auto

lemma unbase64_b64char: "n < 64 \<Longrightarrow> unbase64 (b64char n) = Some n"
  by (auto simp add: unbase64_def b64char_def Let_def)

lemma b64char_not_pad: "b64char n \<noteq> CHR ''=''"
proof -
  have "(of_char (b64char n) :: nat) \<noteq> 61"
    by (auto simp add: b64char_def)
  then show ?thesis by auto
qed

lemma sextet_bounds:
  fixes x y :: nat
  assumes "x < 256" "y < 256"
  shows "x div 4 < 64" "(x mod 4) * 16 + y div 16 < 64" "(x mod 16) * 4 + y div 64 < 64"
    "x mod 64 < 64" "(x mod 16) * 4 < 64" "(x mod 4) * 16 < 64"
  using assms by auto

lemma small_div:
  fixes x :: nat
  assumes "x < 256"
  shows "x div 16 div 16 = 0" "x div 64 div 4 = 0" "x div 16 mod 16 = x div 16"
    "x div 64 mod 4 = x div 64"
  using assms by auto

lemmas char_sextet = sextet_bounds [OF of_char_lt_256 of_char_lt_256]
lemmas char_small = small_div [OF of_char_lt_256]

lemma decode_quad:
  "b64_groups (List.map_filter unbase64 (takeWhile (\<lambda>c. c \<noteq> CHR ''='')
     (b64char (of_char a div 4) # b64char ((of_char a mod 4) * 16 + of_char b div 16) #
      b64char ((of_char b mod 16) * 4 + of_char c div 64) # b64char (of_char c mod 64) # t))) =
   a # b # c # b64_groups (List.map_filter unbase64 (takeWhile (\<lambda>c. c \<noteq> CHR ''='') t))"
  by (simp add: b64char_not_pad List.map_filter_simps unbase64_b64char char_sextet char_small)

lemma decode_triple:
  "b64_groups (List.map_filter unbase64 (takeWhile (\<lambda>c. c \<noteq> CHR ''='')
     [b64char (of_char a div 4), b64char ((of_char a mod 4) * 16 + of_char b div 16),
      b64char ((of_char b mod 16) * 4)])) = [a, b]"
  by (simp add: b64char_not_pad List.map_filter_simps unbase64_b64char char_sextet char_small)

lemma decode_pair:
  "b64_groups (List.map_filter unbase64 (takeWhile (\<lambda>c. c \<noteq> CHR ''='')
     [b64char (of_char a div 4), b64char ((of_char a mod 4) * 16)])) = [a]"
  by (simp add: b64char_not_pad List.map_filter_simps unbase64_b64char char_sextet char_small)

lemma base64url_roundtrip: "base64url_decode (base64url_encode s) = s"
  unfolding base64url_decode_def
proof (induction s rule: base64url_encode.induct)
  case (1 a b c rest)
  then show ?case by (simp only: base64url_encode.simps Let_def decode_quad)
next
  case (2 a b)
  then show ?case by (simp only: base64url_encode.simps Let_def decode_triple)
next
  case (3 a)
  then show ?case by (simp only: base64url_encode.simps Let_def decode_pair)
next
  case 4
  then show ?case by (simp add: List.map_filter_simps)
qed

lemma base64url_encode_nonempty: "s \<noteq> [] \<Longrightarrow> base64url_encode s \<noteq> []"
  by (cases s rule: base64url_encode.cases) (simp_all add: Let_def)

subsection \<open>Numbers: parseInt reads back what the template literal wrote\<close>

lemma digits_nonempty: "digits n \<noteq> []"
  by (subst digits.simps) simp

lemma is_digit_char_of: "d < 10 \<Longrightarrow> is_digit (char_of (48 + d :: nat))"
  by (simp add: is_digit_def)

lemma digit_val_char_of: "d < 10 \<Longrightarrow> digit_val (char_of (48 + d :: nat)) = d"
  by (simp add: digit_val_def)

lemma digits_all_digit: "c \<in> set (digits n) \<Longrightarrow> is_digit c"
proof (induction n arbitrary: c rule: digits.induct)
  case (1 n)
  show ?case
  proof (cases "n < 10")
    case True
    with "1.prems" show ?thesis
      by (subst (asm) digits.simps) (simp add: is_digit_char_of)
  next
    case False
    with "1.prems" have "c \<in> set (digits (n div 10)) \<or> c = char_of (48 + n mod 10)"
      by (subst (asm) digits.simps) auto
    with False "1.IH" show ?thesis
      by (auto simp add: is_digit_char_of)
  qed
qed

lemma digits_value: "foldl (\<lambda>a c. 10 * a + digit_val c) 0 (digits n) = n"
proof (induction n rule: digits.induct)
  case (1 n)
  show ?case
  proof (cases "n < 10")
    case True
    then show ?thesis
      by (subst digits.simps) (simp add: digit_val_char_of)
  next
    case False
    with "1.IH" show ?thesis
      by (subst digits.simps) (simp add: digit_val_char_of)
  qed
qed

lemma is_digit_not_colon: "is_digit c \<Longrightarrow> c \<noteq> CHR '':''"
  by (auto simp add: is_digit_def)

lemma ws_len_no_space:
  assumes "(of_char c :: nat) \<notin> {9, 10, 11, 12, 13, 32, 0xC2, 0xE1, 0xE2, 0xE3, 0xEF}"
  shows "ws_len (c # cs) = 0"
  using assms by (simp add: ws_len_def white_space_def upt_rec [of _ "numeral _"] upt_rec [of 0])

lemma trimStart_digit: "is_digit c \<or> c = CHR ''-'' \<Longrightarrow> trimStart (c # cs) = c # cs"
  by (subst trimStart.simps, subst ws_len_no_space) (auto simp add: is_digit_def)

lemma takeWhile_all: "\<forall>c \<in> set s. P c \<Longrightarrow> takeWhile P s = s"
  by (induction s) auto

lemma parseInt_unsigned:
  assumes "s \<noteq> []" "\<forall>c \<in> set s. is_digit c"
  shows "parseInt s = Some (int (foldl (\<lambda>a c. 10 * a + digit_val c) 0 s))"
proof -
  obtain c cs where s: "s = c # cs"
    using assms(1) by (cases s) auto
  have c: "is_digit c"
    using assms(2) s by simp
  then have sign: "hd s \<noteq> CHR ''-''" "hd s \<noteq> CHR ''+''"
    using s by (auto simp add: is_digit_def)
  have trim: "trimStart s = s"
    using c s by (simp add: trimStart_digit)
  have run: "takeWhile is_digit s = s"
    using assms(2) by (rule takeWhile_all)
  show ?thesis
    unfolding parseInt_def Let_def trim using sign assms(1) by (simp add: run)
qed

lemma parseInt_negative:
  assumes "s \<noteq> []" "\<forall>c \<in> set s. is_digit c"
  shows "parseInt (CHR ''-'' # s) = Some (- int (foldl (\<lambda>a c. 10 * a + digit_val c) 0 s))"
proof -
  have trim: "trimStart (CHR ''-'' # s) = CHR ''-'' # s"
    by (simp add: trimStart_digit)
  have run: "takeWhile is_digit s = s"
    using assms(2) by (rule takeWhile_all)
  show ?thesis
    unfolding parseInt_def Let_def trim using assms(1) by (simp add: run)
qed

lemma parseInt_digits: "parseInt (digits n) = Some (int n)"
  using parseInt_unsigned [of "digits n"] digits_all_digit [of _ n]
  by (simp add: digits_nonempty digits_value)

lemma parseInt_minus_digits: "parseInt (CHR ''-'' # digits n) = Some (- int n)"
  using parseInt_negative [of "digits n"] digits_all_digit [of _ n]
  by (simp add: digits_nonempty digits_value)

lemma parseInt_numberToString: "parseInt (numberToString i) = Some i"
  by (cases "i < 0") (simp_all add: numberToString_def parseInt_digits parseInt_minus_digits)

lemma numberToString_no_colon: "CHR '':'' \<notin> set (numberToString i)"
  using digits_all_digit is_digit_not_colon by (auto simp add: numberToString_def)

lemma numberToString_nonempty: "numberToString i \<noteq> []"
  by (simp add: numberToString_def digits_nonempty)

subsection \<open>Splitting at the colon\<close>

lemma split_colon_plain: "CHR '':'' \<notin> set s \<Longrightarrow> split_colon s = [s]"
  by (induction s) auto

lemma split_colon_append:
  "CHR '':'' \<notin> set a \<Longrightarrow> split_colon (a @ CHR '':'' # b) = a # split_colon b"
  by (induction a) auto

subsection \<open>Hex: the digest read back from its text\<close>

lemma unhex_hexdigit: "n < 16 \<Longrightarrow> unhex (hexdigit n) = Some n"
  by (auto simp add: unhex_def hexdigit_def Let_def)

lemma hexdigit_not_colon: "n < 16 \<Longrightarrow> hexdigit n \<noteq> CHR '':''"
proof -
  assume "n < 16"
  then have "(of_char (hexdigit n) :: nat) \<noteq> 58"
    by (auto simp add: hexdigit_def)
  then show ?thesis by auto
qed

lemma unat_byte_lt: "unat (b :: 8 word) < 256"
  using unsigned_less [of b] by simp

lemma byte_nibbles: "unat (b :: 8 word) div 16 < 16" "unat b mod 16 < 16"
  using unat_byte_lt [of b] by auto

lemma bufferFromHex_hex_of_byte:
  "bufferFromHex (hex_of_byte b @ rest) = b # bufferFromHex rest"
  by (simp add: hex_of_byte_def unhex_hexdigit byte_nibbles del: of_nat_add of_nat_mult)

lemma bufferFromHex_concat: "bufferFromHex (concat (map hex_of_byte bs)) = bs"
  by (induction bs) (simp_all add: bufferFromHex_hex_of_byte)

lemma bufferFromHex_hexdigest: "bufferFromHex (hexdigest w) = digest_bytes w"
  by (simp add: hexdigest_def bufferFromHex_concat)

lemma length_digest_bytes: "length (digest_bytes w) = 32"
  by (simp add: digest_bytes_def)

lemma hex_of_byte_no_colon: "CHR '':'' \<notin> set (hex_of_byte b)"
  using hexdigit_not_colon [OF byte_nibbles(1), of b] hexdigit_not_colon [OF byte_nibbles(2), of b]
  by (auto simp add: hex_of_byte_def)

lemma hexdigest_no_colon: "CHR '':'' \<notin> set (hexdigest w)"
  by (simp add: hexdigest_def hex_of_byte_no_colon)

text \<open>Two digests with the same 32 bytes are the same digest: every bit sits in one byte.\<close>

lemma digest_bytes_inj: "digest_bytes v = digest_bytes w \<Longrightarrow> v = w"
proof (rule bit_word_eqI)
  fix n
  assume eq: "digest_bytes v = digest_bytes w" and n: "n < LENGTH(256)"
  define i where "i = 31 - n div 8"
  have i: "i < 32" by (simp add: i_def)
  have "digest_bytes v ! i = digest_bytes w ! i"
    using eq by simp
  then have e: "(ucast (drop_bit (8 * (31 - i)) v) :: 8 word) = ucast (drop_bit (8 * (31 - i)) w)"
    using i by (simp add: digest_bytes_def del: upt_Suc)
  have k: "8 * (31 - i) + n mod 8 = n"
    using n by (simp add: i_def)
  have "bit (ucast (drop_bit (8 * (31 - i)) v) :: 8 word) (n mod 8) =
        bit (ucast (drop_bit (8 * (31 - i)) w) :: 8 word) (n mod 8)"
    using e by simp
  then show "bit v n = bit w n"
    using k by (simp add: bit_ucast_iff bit_drop_bit_eq)
qed

subsection \<open>Verifying a minted token\<close>

lemma split_minted:
  "split_colon (numberToString e @ CHR '':'' # hexdigest w) = [numberToString e, hexdigest w]"
  by (simp add: split_colon_append numberToString_no_colon split_colon_plain hexdigest_no_colon)

text \<open>
  What \<open>verifySignedToken\<close> answers, for the installation \<open>idB\<close>, to a token that was
  signed for the installation \<open>idA\<close> with the expiry \<open>e\<close>.
\<close>

lemma verify_minted:
  assumes "secret \<noteq> []"
  shows "verifySignedToken hmac idB
           (Some (base64url_encode (numberToString e @ CHR '':'' #
              hexdigest (hmac secret (idA @ CHR '':'' # numberToString e)))))
           (Some secret) now =
         (if now > e then Invalid ''Token has expired''
          else if hmac secret (idA @ CHR '':'' # numberToString e) \<noteq>
                  hmac secret (idB @ CHR '':'' # numberToString e)
          then Invalid ''Invalid token signature''
          else Valid)"
proof -
  have ne: "base64url_encode (numberToString e @ CHR '':'' #
              hexdigest (hmac secret (idA @ CHR '':'' # numberToString e))) \<noteq> []"
    by (rule base64url_encode_nonempty) simp
  show ?thesis
    unfolding verifySignedToken_def Let_def
    using assms ne digest_bytes_inj
    by (auto simp add: falsy_def base64url_roundtrip split_minted parseInt_numberToString
        bufferFromHex_hexdigest length_digest_bytes)
qed

text \<open>
  C1. For every installation id, every non-empty secret and all times \<open>t0\<close> and \<open>t1\<close>
  (in milliseconds): minting at \<open>t0\<close> yields a token, and verifying that token at \<open>t1\<close>
  for the same id and secret is valid if and only if \<open>t1\<close> is at most \<open>t0\<close> plus seven
  days. This holds whatever the keyed hash is.
\<close>

theorem verify_minted_token:
  assumes "secret \<noteq> []"
  shows "\<exists>token. generateSignedToken hmac installationId (Some secret) t0 = Inr token \<and>
           (verifySignedToken hmac installationId (Some token) (Some secret) t1 = Valid
              \<longleftrightarrow> t1 \<le> t0 + 7 * 24 * 60 * 60 * 1000)"
  using assms
  by (auto simp add: generateSignedToken_def falsy_def Let_def verify_minted TOKEN_EXPIRY_MS_def)

theorem verify_minted_token_witness:
  "''s3cret'' \<noteq> [] \<and>
   (\<exists>token. generateSignedToken sample_hmac ''4711'' (Some ''s3cret'') 1000 = Inr token \<and>
      (verifySignedToken sample_hmac ''4711'' (Some token) (Some ''s3cret'') 2000 = Valid
         \<longleftrightarrow> (2000 :: int) \<le> 1000 + 7 * 24 * 60 * 60 * 1000))"
  using verify_minted_token [of "''s3cret''" sample_hmac "''4711''" 1000 2000] by simp

text \<open>
  C2. For two distinct installation ids \<open>idA\<close> and \<open>idB\<close> and every non-empty secret, a
  token minted for \<open>idA\<close> and presented with \<open>idB\<close> before it expires is rejected with
  the reason ``Invalid token signature''. The signed texts \<open>idA:expiry\<close> and \<open>idB:expiry\<close>
  differ because the ids do; the one thing assumed of the keyed hash is that it does
  not collide on these two texts.
\<close>

theorem token_bound_to_installation:
  assumes "secret \<noteq> []" and "idA \<noteq> idB" and "t1 \<le> t0 + TOKEN_EXPIRY_MS"
    and "hmac secret (idA @ '':'' @ numberToString (t0 + TOKEN_EXPIRY_MS)) =
         hmac secret (idB @ '':'' @ numberToString (t0 + TOKEN_EXPIRY_MS))
         \<Longrightarrow> idA @ '':'' @ numberToString (t0 + TOKEN_EXPIRY_MS) =
             idB @ '':'' @ numberToString (t0 + TOKEN_EXPIRY_MS)"
  shows "\<exists>token. generateSignedToken hmac idA (Some secret) t0 = Inr token \<and>
           verifySignedToken hmac idB (Some token) (Some secret) t1 =
             Invalid ''Invalid token signature''"
proof -
  have "idA @ '':'' @ numberToString (t0 + TOKEN_EXPIRY_MS) \<noteq>
        idB @ '':'' @ numberToString (t0 + TOKEN_EXPIRY_MS)"
    using assms(2) by simp
  with assms(4) have "hmac secret (idA @ '':'' @ numberToString (t0 + TOKEN_EXPIRY_MS)) \<noteq>
        hmac secret (idB @ '':'' @ numberToString (t0 + TOKEN_EXPIRY_MS))"
    by blast
  with assms(1,3) show ?thesis
    by (simp add: generateSignedToken_def falsy_def Let_def verify_minted)
qed

theorem token_bound_to_installation_witness:
  "''s3cret'' \<noteq> [] \<and> ''1'' \<noteq> ''22'' \<and> (2000 :: int) \<le> 1000 + TOKEN_EXPIRY_MS \<and>
   (\<exists>token. generateSignedToken sample_hmac ''1'' (Some ''s3cret'') 1000 = Inr token \<and>
      verifySignedToken sample_hmac ''22'' (Some token) (Some ''s3cret'') 2000 =
        Invalid ''Invalid token signature'')"
  using token_bound_to_installation [of "''s3cret''" "''1''" "''22''" 2000 1000 sample_hmac]
  by (simp add: sample_hmac_def TOKEN_EXPIRY_MS_def)

subsection \<open>The reasons of a rejection\<close>

lemma decode_abc: "base64url_decode ''YWJj'' = ''abc''"
  by (simp add: base64url_decode_def List.map_filter_simps unbase64_def char_of_eq_iff)

lemma decode_99: "base64url_decode ''OTk6YWJjZA'' = ''99:abcd''"
  by (simp add: base64url_decode_def List.map_filter_simps unbase64_def char_of_eq_iff)

lemma parseInt_abc: "parseInt ''abc'' = None"
  by (simp add: parseInt_def is_digit_def trimStart.simps [of "''abc''"] ws_len_no_space)

lemma parseInt_99: "parseInt ''99'' = Some 99"
  by (simp add: parseInt_def trimStart_digit is_digit_def digit_val_def)

text \<open>
  C8, as the code has it. For every non-empty secret and every present token, with
  \<open>field\<close> the text before the first colon of the decoded token: the reason is ``Token
  has expired'' exactly when \<open>parseInt\<close> finds no integer at the start of \<open>field\<close> or the
  integer it finds is less than \<open>now\<close>; the reason is ``Invalid token format'' exactly
  when \<open>field\<close> starts with an integer that is not less than \<open>now\<close> and the decoded token
  has no second field or its second field does not decode, as hex, to 32 bytes.
\<close>

theorem verify_failure_reasons:
  assumes "secret \<noteq> []" and "token \<noteq> []"
  shows "(verifySignedToken hmac installationId (Some token) (Some secret) now =
            Invalid ''Token has expired''
          \<longleftrightarrow> (case parseInt (hd (split_colon (base64url_decode token))) of
                None \<Rightarrow> True
              | Some expiry \<Rightarrow> now > expiry)) \<and>
         (verifySignedToken hmac installationId (Some token) (Some secret) now =
            Invalid ''Invalid token format''
          \<longleftrightarrow> (case parseInt (hd (split_colon (base64url_decode token))) of
                None \<Rightarrow> False
              | Some expiry \<Rightarrow> now \<le> expiry \<and>
                  (length (split_colon (base64url_decode token)) \<le> 1 \<or>
                   length (bufferFromHex (split_colon (base64url_decode token) ! 1)) \<noteq> 32)))"
  using assms
  by (auto simp add: verifySignedToken_def falsy_def Let_def bufferFromHex_hexdigest
      length_digest_bytes split: option.splits)

theorem verify_failure_reasons_witness:
  "''s3cret'' \<noteq> [] \<and> ''OTk6YWJjZA'' \<noteq> [] \<and>
   verifySignedToken sample_hmac ''4711'' (Some ''OTk6YWJjZA'') (Some ''s3cret'') 5 =
     Invalid ''Invalid token format''"
  using verify_failure_reasons [of "''s3cret''" "''OTk6YWJjZA''" sample_hmac "''4711''" 5]
  by (simp add: decode_99 parseInt_99 unhex_def)

text \<open>
  The token \<open>YWJj\<close> decodes to \<open>abc\<close>, which holds neither an expiry nor a signature; it
  is rejected as expired, not as ill-formed.
\<close>

theorem malformed_token_reported_expired:
  "base64url_decode ''YWJj'' = ''abc'' \<and>
   verifySignedToken sample_hmac ''4711'' (Some ''YWJj'') (Some ''s3cret'') 0 =
     Invalid ''Token has expired''"
  by (simp add: decode_abc verifySignedToken_def falsy_def parseInt_abc)

text \<open>
  C9. With no signing secret configured (absent or empty), verification succeeds for
  every installation id and every token, the empty and the absent token included.
\<close>

theorem verify_without_secret:
  "verifySignedToken hmac installationId token None now = Valid \<and>
   verifySignedToken hmac installationId token (Some []) now = Valid"
  by (simp add: verifySignedToken_def falsy_def)

section \<open>Properties of the Annotation Session\<close>

subsection \<open>Double arithmetic\<close>

lemma quantum_pos: "0 < quantum x"
  by (simp add: quantum_def)

lemma rne_of_int: "rne (of_int k) = k"
  by (simp add: rne_def)

lemma rne_bounds: "z - 1 / 2 \<le> of_int (rne z)" "of_int (rne z) \<le> z + 1 / 2"
  unfolding rne_def Let_def by (auto; linarith)+

lemma rne_le_double: "0 \<le> z \<Longrightarrow> of_int (rne z) \<le> 2 * z"
proof (cases "z < 1 / 2")
  case True
  assume "0 \<le> z"
  with True have "\<lfloor>z\<rfloor> = 0" by linarith
  with True \<open>0 \<le> z\<close> show ?thesis by (simp add: rne_def)
next
  case False
  with rne_bounds(2) [of z] show ?thesis by linarith
qed

lemma quantum_eval:
  assumes "x \<noteq> 0" "2 powr of_int e \<le> \<bar>x\<bar>" "\<bar>x\<bar> < 2 powr (of_int e + 1)" "- 1022 \<le> e"
  shows "quantum x = 2 powr (of_int e - 52)"
proof -
  have "\<lfloor>log 2 \<bar>x\<bar>\<rfloor> = e"
    using assms by (subst floor_log_eq_powr_iff) auto
  with assms(4) show ?thesis by (simp add: quantum_def max_def)
qed

lemma fl_eval:
  assumes "x \<noteq> 0" "2 powr of_int e \<le> \<bar>x\<bar>" "\<bar>x\<bar> < 2 powr (of_int e + 1)" "- 1022 \<le> e"
  shows "fl x = of_int (rne (x / 2 powr (of_int e - 52))) * 2 powr (of_int e - 52)"
  using assms(1) by (simp add: fl_def quantum_eval [OF assms])

lemma fl_upper: "0 \<le> x \<Longrightarrow> fl x \<le> 2 * x"
proof (cases "x = 0")
  case True
  then show ?thesis by (simp add: fl_def)
next
  case False
  assume "0 \<le> x"
  then have "of_int (rne (x / quantum x)) \<le> 2 * (x / quantum x)"
    using quantum_pos [of x] by (intro rne_le_double) simp
  then have "of_int (rne (x / quantum x)) * quantum x \<le> 2 * (x / quantum x) * quantum x"
    using quantum_pos [of x] by (intro mult_right_mono) simp_all
  with False quantum_pos [of x] show ?thesis
    by (simp add: fl_def)
qed

lemma fl_lower:
  assumes "1 \<le> x"
  shows "x / 2 \<le> fl x"
proof -
  define e where "e = \<lfloor>log 2 \<bar>x\<bar>\<rfloor>"
  have x: "x \<noteq> 0" "\<bar>x\<bar> = x" using assms by simp_all
  have "0 \<le> log 2 x" using assms by simp
  then have e0: "0 \<le> e" by (simp add: e_def x)
  have le: "2 powr of_int e \<le> x"
    using floor_log_eq_powr_iff [of x 2 e] assms by (simp add: e_def x)
  have "quantum x = 2 powr (of_int e - 52)"
    using e0 by (simp add: quantum_def e_def max_def)
  then have q: "quantum x = 2 powr of_int e / 2 powr 52"
    by (simp only: powr_diff)
  have big: "(1 :: real) \<le> 2 powr 52" by simp
  have "quantum x \<le> x / 2 powr 52"
    unfolding q using le by (intro divide_right_mono) simp_all
  also have "\<dots> \<le> x / 1"
    using assms big by (intro divide_left_mono) simp_all
  finally have qle: "quantum x \<le> x" by simp
  have "x / quantum x - 1 / 2 \<le> of_int (rne (x / quantum x))"
    by (rule rne_bounds)
  then have "(x / quantum x - 1 / 2) * quantum x \<le> of_int (rne (x / quantum x)) * quantum x"
    using quantum_pos [of x] by (intro mult_right_mono) simp_all
  then have "x - quantum x / 2 \<le> fl x"
    using x quantum_pos [of x] by (simp add: fl_def algebra_simps)
  with qle show ?thesis by linarith
qed

lemma fl_int:
  assumes "\<bar>n\<bar> < 2 ^ 53"
  shows "fl (of_int n) = of_int n"
proof (cases "n = 0")
  case True
  then show ?thesis by (simp add: fl_def)
next
  case False
  define e where "e = \<lfloor>log 2 \<bar>of_int n :: real\<bar>\<rfloor>"
  have n1: "1 \<le> \<bar>of_int n :: real\<bar>"
  proof -
    have "1 \<le> \<bar>n\<bar>" using False by simp
    then have "(1 :: real) \<le> of_int \<bar>n\<bar>" by (simp only: of_int_1_le_iff)
    then show ?thesis by simp
  qed
  then have "0 \<le> log 2 \<bar>of_int n :: real\<bar>" by simp
  then have e0: "0 \<le> e" by (simp add: e_def)
  have "\<bar>of_int n :: real\<bar> < 2 ^ 53"
    using assms by (metis of_int_abs of_int_less_numeral_power_cancel_iff)
  then have "log 2 \<bar>of_int n :: real\<bar> < 53"
    using n1 by (subst log_less_iff) (simp_all add: powr_realpow)
  then have e52: "e \<le> 52" by (simp add: e_def floor_le_iff)
  define k where "k = nat (52 - e)"
  have q: "quantum (of_int n) = 1 / 2 ^ k"
  proof -
    have "of_int e - (52 :: real) = - real k"
      using e52 by (simp add: k_def)
    then show ?thesis
      using e0 by (simp add: quantum_def e_def [symmetric] max_def powr_minus powr_realpow divide_inverse)
  qed
  have "of_int n / quantum (of_int n) = (of_int (n * 2 ^ k) :: real)"
    by (simp add: q)
  then have "rne (of_int n / quantum (of_int n)) = n * 2 ^ k"
    by (simp only: rne_of_int)
  then show ?thesis
    using False by (simp add: fl_def q)
qed

lemma fl_numeral: "(numeral n :: int) < 2 ^ 53 \<Longrightarrow> fl (numeral n) = numeral n"
  using fl_int [of "numeral n"] by simp

lemma fl_sqrt_small:
  assumes "0 \<le> a" "a \<le> 196"
  shows "fl (sqrt a) < 30"
proof -
  have "sqrt a \<le> 14"
    using assms by (intro real_le_lsqrt) simp_all
  moreover have "fl (sqrt a) \<le> 2 * sqrt a"
    using assms(1) by (intro fl_upper) simp
  ultimately show ?thesis by linarith
qed

lemma fl_sqrt_large:
  assumes "3600 \<le> a"
  shows "30 \<le> fl (sqrt a)"
proof -
  have "60 \<le> sqrt a"
    using assms by (intro real_le_rsqrt) simp
  moreover from this have "1 \<le> sqrt a"
    by linarith
  then have "sqrt a / 2 \<le> fl (sqrt a)"
    by (rule fl_lower)
  ultimately show ?thesis by linarith
qed

subsection \<open>The path tool\<close>

lemma sqrt_less_30: "sqrt x < 30 \<longleftrightarrow> x < 900"
proof -
  have "sqrt 900 = 30"
    by (rule real_sqrt_unique) simp_all
  then show ?thesis
    using real_sqrt_less_iff [of x 900] by simp
qed

lemma strokeDashArray_set_solid: "strokeDashArray (set_solid obj) = None"
  by (cases obj) simp_all

lemma tap_line:
  assumes "currentTool s = Line"
  shows "handleCanvasTap None x y s = addLinePoint x y s"
  using assms by (simp add: handleCanvasTap_def)

lemma one_point_session_eval:
  "one_point_session =
     \<lparr>currentTool = Line, iduPlaced = False, oduPlaced = False,
      linePoints = [(0, 0)], objects = [Background, PointMarker 0 0],
      saveDisabled = True, saveText = ''Save Site Plan'',
      spinnerHidden = True, successModalHidden = True, alerts = []\<rparr>"
  by (simp add: one_point_session_def run_def fresh_session_def selectTool_def
      handleCanvasTap_def addLinePoint_def updateSaveButton_def Let_def)

lemma path_session_eval:
  "path_session =
     \<lparr>currentTool = Line, iduPlaced = False, oduPlaced = False,
      linePoints = [(0, 0), (100, 0)],
      objects = [LineSegment 0 0 100 0 (Some [8, 4]), Background, PointMarker 0 0, PointMarker 100 0],
      saveDisabled = True, saveText = ''Save Site Plan'',
      spinnerHidden = True, successModalHidden = True, alerts = []\<rparr>"
  by (simp add: path_session_def run_def fresh_session_def selectTool_def handleCanvasTap_def
      addLinePoint_def updateSaveButton_def Let_def)

text \<open>
  C4, as the code has it. In a session whose path has at least two points, a tap on
  empty canvas with the path tool is handed to \<open>addLinePoint\<close>, and there, with the
  distance from the last path point as the code computes it in double arithmetic: when
  the computed distance is strictly below 30 the path is finished (its points are
  unchanged, every segment on the canvas is made solid and none is dashed any more, the
  active tool becomes the indoor-unit tool); when it is 30 or more the point is appended
  and the path is one point longer.
\<close>

theorem tap_near_last_point_finishes:
  assumes "2 \<le> length (linePoints s)"
  shows "(currentTool s = Line \<longrightarrow> handleCanvasTap None x y s = addLinePoint x y s) \<and>
         (distance x y (last (linePoints s)) < 30 \<longrightarrow>
            linePoints (addLinePoint x y s) = linePoints s \<and>
            objects (addLinePoint x y s) = map set_solid (objects s) \<and>
            (\<forall>obj \<in> set (objects (addLinePoint x y s)). strokeDashArray obj = None) \<and>
            currentTool (addLinePoint x y s) = Idu) \<and>
         (30 \<le> distance x y (last (linePoints s)) \<longrightarrow>
            linePoints (addLinePoint x y s) = linePoints s @ [(x, y)] \<and>
            length (linePoints (addLinePoint x y s)) = length (linePoints s) + 1)"
  using assms
  by (auto simp add: tap_line addLinePoint_def finishLine_def selectTool_def
      updateSaveButton_def Let_def strokeDashArray_set_solid)

text \<open>The path from (0,0) to (100,0): a tap at (105,2) finishes it, one at (200,200) extends it.\<close>

theorem tap_near_last_point_finishes_witness:
  "2 \<le> length (linePoints path_session) \<and>
   currentTool path_session = Line \<and>
   handleCanvasTap None 105 2 path_session = addLinePoint 105 2 path_session \<and>
   distance 105 2 (last (linePoints path_session)) < 30 \<and>
   length (linePoints (addLinePoint 105 2 path_session)) = 2 \<and>
   currentTool (addLinePoint 105 2 path_session) = Idu \<and>
   objects (addLinePoint 105 2 path_session) =
     [LineSegment 0 0 100 0 None, Background, PointMarker 0 0, PointMarker 100 0] \<and>
   30 \<le> distance 200 200 (last (linePoints path_session)) \<and>
   length (linePoints (addLinePoint 200 200 path_session)) = 3"
proof -
  have near: "distance 105 2 (last (linePoints path_session)) < 30"
    by (simp add: path_session_eval distance_def fl_numeral fl_sqrt_small)
  have far: "30 \<le> distance 200 200 (last (linePoints path_session))"
    by (simp add: path_session_eval distance_def fl_numeral fl_sqrt_large)
  have two: "2 \<le> length (linePoints path_session)"
    by (simp add: path_session_eval)
  show ?thesis
    using tap_near_last_point_finishes [OF two, of 105 2]
      tap_near_last_point_finishes [OF two, of 200 200] near far
    by (simp add: path_session_eval)
qed

text \<open>
  With the exact distance in place of the computed one the statement fails. The point
  (\<open>boundary_x\<close>, \<open>boundary_y\<close>) lies at a distance strictly below 30 from the origin,
  where the path of \<open>corner_session\<close> ends; the squares round to numbers whose sum is 900,
  the computed distance is 30, and the point is appended.
\<close>

lemma corner_session_eval:
  "corner_session =
     \<lparr>currentTool = Line, iduPlaced = False, oduPlaced = False,
      linePoints = [(100, 0), (0, 0)],
      objects = [LineSegment 100 0 0 0 (Some [8, 4]), Background, PointMarker 100 0, PointMarker 0 0],
      saveDisabled = True, saveText = ''Save Site Plan'',
      spinnerHidden = True, successModalHidden = True, alerts = []\<rparr>"
  by (simp add: corner_session_def run_def fresh_session_def selectTool_def handleCanvasTap_def
      addLinePoint_def updateSaveButton_def Let_def)

lemma fl_boundary_x: "fl boundary_x = boundary_x"
proof -
  have "fl (2814127422274211 / 2 ^ 47) =
      of_int (rne ((2814127422274211 / 2 ^ 47) / 2 powr (of_int 4 - 52))) * 2 powr (of_int 4 - 52)"
    by (rule fl_eval) (simp_all add: powr_realpow)
  also have "(2814127422274211 / 2 ^ 47) / 2 powr (of_int 4 - 52) = (of_int 5628254844548422 :: real)"
    by (simp add: powr_minus powr_realpow)
  finally show ?thesis
    unfolding boundary_x_def by (simp only: rne_of_int) (simp add: powr_minus powr_realpow)
qed

lemma fl_boundary_y: "fl boundary_y = boundary_y"
proof -
  have "fl (6295084881687865 / 2 ^ 48) =
      of_int (rne ((6295084881687865 / 2 ^ 48) / 2 powr (of_int 4 - 52))) * 2 powr (of_int 4 - 52)"
    by (rule fl_eval) (simp_all add: powr_realpow)
  also have "(6295084881687865 / 2 ^ 48) / 2 powr (of_int 4 - 52) = (of_int 6295084881687865 :: real)"
    by (simp add: powr_minus powr_realpow)
  finally show ?thesis
    unfolding boundary_y_def by (simp only: rne_of_int) (simp add: powr_minus powr_realpow)
qed

lemma fl_square_x: "fl (boundary_x * boundary_x) = 879220379700973 / 2 ^ 41"
proof -
  have "fl ((2814127422274211 / 2 ^ 47) * (2814127422274211 / 2 ^ 47)) =
      of_int (rne (((2814127422274211 / 2 ^ 47) * (2814127422274211 / 2 ^ 47)) /
        2 powr (of_int 8 - 52))) * 2 powr (of_int 8 - 52)"
    by (rule fl_eval) (simp_all add: powr_realpow)
  also have "rne (((2814127422274211 / 2 ^ 47) * (2814127422274211 / 2 ^ 47)) /
      2 powr (of_int 8 - 52)) = 7033763037607784"
    by (simp add: rne_def powr_minus powr_realpow)
  finally show ?thesis
    unfolding boundary_x_def by (simp add: powr_minus powr_realpow)
qed

lemma fl_square_y: "fl (boundary_y * boundary_y) = 1099900550295827 / 2 ^ 41"
proof -
  have "fl ((6295084881687865 / 2 ^ 48) * (6295084881687865 / 2 ^ 48)) =
      of_int (rne (((6295084881687865 / 2 ^ 48) * (6295084881687865 / 2 ^ 48)) /
        2 powr (of_int 8 - 52))) * 2 powr (of_int 8 - 52)"
    by (rule fl_eval) (simp_all add: powr_realpow)
  also have "rne (((6295084881687865 / 2 ^ 48) * (6295084881687865 / 2 ^ 48)) /
      2 powr (of_int 8 - 52)) = 8799204402366616"
    by (simp add: rne_def powr_minus powr_realpow)
  finally show ?thesis
    unfolding boundary_y_def by (simp add: powr_minus powr_realpow)
qed

lemma distance_boundary: "distance boundary_x boundary_y (0, 0) = 30"
proof -
  have sum: "(879220379700973 / 2 ^ 41 + 1099900550295827 / 2 ^ 41 :: real) = 900"
    by simp
  have root: "sqrt 900 = 30"
    by (rule real_sqrt_unique) simp_all
  show ?thesis
    by (simp add: distance_def fl_boundary_x fl_boundary_y fl_square_x fl_square_y sum
        fl_numeral root del: real_sqrt_eq_iff)
qed

theorem tap_below_30_appends:
  "2 \<le> length (linePoints corner_session) \<and>
   last (linePoints corner_session) = (0, 0) \<and>
   sqrt ((boundary_x - 0)\<^sup>2 + (boundary_y - 0)\<^sup>2) < 30 \<and>
   linePoints (addLinePoint boundary_x boundary_y corner_session) =
     [(100, 0), (0, 0), (boundary_x, boundary_y)] \<and>
   currentTool (addLinePoint boundary_x boundary_y corner_session) = Line"
proof -
  have exact: "sqrt ((boundary_x - 0)\<^sup>2 + (boundary_y - 0)\<^sup>2) < 30"
    by (simp add: sqrt_less_30 boundary_x_def boundary_y_def power2_eq_square)
  have computed: "distance boundary_x boundary_y (last (linePoints corner_session)) = 30"
    by (simp add: corner_session_eval distance_boundary)
  have "linePoints (addLinePoint boundary_x boundary_y corner_session) =
      [(100, 0), (0, 0), (boundary_x, boundary_y)] \<and>
      currentTool (addLinePoint boundary_x boundary_y corner_session) = Line"
    unfolding addLinePoint_def computed
    by (simp add: corner_session_eval updateSaveButton_def Let_def)
  with exact show ?thesis
    by (simp add: corner_session_eval)
qed

text \<open>
  C10. In a session whose path has exactly one point, \<open>addLinePoint\<close> appends the tapped
  point wherever it lies, also within 30 units of the sole point: the path then has two
  points, the active tool is unchanged, and the canvas gains the point marker and one
  dashed segment, nothing on it being made solid. Whenever \<open>addLinePoint\<close> does what
  \<open>finishLine\<close> does, the path already had at least two points.
\<close>

theorem single_point_path_extends:
  "(length (linePoints s) = 1 \<longrightarrow>
      linePoints (addLinePoint x y s) = linePoints s @ [(x, y)] \<and>
      length (linePoints (addLinePoint x y s)) = 2 \<and>
      currentTool (addLinePoint x y s) = currentTool s \<and>
      objects (addLinePoint x y s) =
        LineSegment (fst (hd (linePoints s))) (snd (hd (linePoints s))) x y (Some [8, 4]) #
        objects s @ [PointMarker x y]) \<and>
   (addLinePoint x y s = finishLine s \<longrightarrow> 2 \<le> length (linePoints s))"
proof -
  have "linePoints (addLinePoint x y s) = linePoints s @ [(x, y)]" if "length (linePoints s) < 2"
    using that by (simp add: addLinePoint_def updateSaveButton_def Let_def)
  moreover have "linePoints (finishLine s) = linePoints s"
    by (simp add: finishLine_def selectTool_def)
  ultimately have fin: "addLinePoint x y s = finishLine s \<longrightarrow> 2 \<le> length (linePoints s)"
    by (metis not_less self_append_conv list.distinct(1))
  have "length (linePoints s) = 1 \<longrightarrow>
      linePoints (addLinePoint x y s) = linePoints s @ [(x, y)] \<and>
      length (linePoints (addLinePoint x y s)) = 2 \<and>
      currentTool (addLinePoint x y s) = currentTool s \<and>
      objects (addLinePoint x y s) =
        LineSegment (fst (hd (linePoints s))) (snd (hd (linePoints s))) x y (Some [8, 4]) #
        objects s @ [PointMarker x y]"
    by (cases "linePoints s")
       (auto simp add: addLinePoint_def updateSaveButton_def Let_def)
  with fin show ?thesis by blast
qed

theorem single_point_path_extends_witness:
  "length (linePoints one_point_session) = 1 \<and>
   distance 5 5 (last (linePoints one_point_session)) < 30 \<and>
   linePoints (addLinePoint 5 5 one_point_session) = [(0, 0), (5, 5)] \<and>
   currentTool (addLinePoint 5 5 one_point_session) = Line \<and>
   addLinePoint 105 2 path_session = finishLine path_session \<and>
   2 \<le> length (linePoints path_session)"
proof -
  have near: "distance 5 5 (last (linePoints one_point_session)) < 30"
    by (simp add: one_point_session_eval distance_def fl_numeral fl_sqrt_small)
  have "distance 105 2 (last (linePoints path_session)) < 30"
    by (simp add: path_session_eval distance_def fl_numeral fl_sqrt_small)
  then have fin: "addLinePoint 105 2 path_session = finishLine path_session"
    by (simp add: addLinePoint_def) (simp add: path_session_eval)
  show ?thesis
    using single_point_path_extends [of one_point_session 5 5]
      single_point_path_extends [of path_session 105 2] near fin
    by (simp add: one_point_session_eval)
qed

subsection \<open>Markers on the canvas\<close>

lemma unit_position_set_solid: "unit_position label (set_solid obj) = unit_position label obj"
  by (cases obj) simp_all

lemma map_filter_append:
  "List.map_filter f (xs @ ys) = List.map_filter f xs @ List.map_filter f ys"
  by (simp add: List.map_filter_def)

lemma map_filter_map: "List.map_filter f (map g xs) = List.map_filter (f \<circ> g) xs"
  by (simp add: List.map_filter_def filter_map comp_def)

lemma markers_placeUnit_same: "markers label (placeUnit label x y fill s) = [(x, y)]"
proof -
  have "List.map_filter (unit_position label)
          (filter (\<lambda>obj. unitLabel obj \<noteq> Some label) objs) = []" for objs
  proof (induction objs)
    case Nil
    show ?case by (simp add: List.map_filter_simps)
  next
    case (Cons obj objs)
    then show ?case by (cases obj) (simp_all add: List.map_filter_simps)
  qed
  then show ?thesis
    by (simp add: markers_def placeUnit_def map_filter_append List.map_filter_simps)
qed

lemma markers_placeUnit_other:
  assumes "other \<noteq> label"
  shows "markers other (placeUnit label x y fill s) = markers other s"
proof -
  have "List.map_filter (unit_position other)
          (filter (\<lambda>obj. unitLabel obj \<noteq> Some label) objs) =
        List.map_filter (unit_position other) objs" for objs
  proof (induction objs)
    case Nil
    show ?case by simp
  next
    case (Cons obj objs)
    then show ?case using assms by (cases obj) (auto simp add: List.map_filter_simps)
  qed
  then show ?thesis
    using assms by (simp add: markers_def placeUnit_def map_filter_append List.map_filter_simps)
qed

lemma markers_finishLine: "markers label (finishLine s) = markers label s"
  by (simp add: markers_def finishLine_def selectTool_def map_filter_map comp_def
      unit_position_set_solid)

lemma markers_addLinePoint: "markers label (addLinePoint x y s) = markers label s"
proof (cases "1 < length (linePoints s) \<and> distance x y (last (linePoints s)) < 30")
  case True
  then show ?thesis by (simp add: addLinePoint_def markers_finishLine)
next
  case False
  then show ?thesis
    by (auto simp add: addLinePoint_def markers_def updateSaveButton_def Let_def
        map_filter_append List.map_filter_simps)
qed

lemma markers_clearAll:
  assumes "label \<noteq> []"
  shows "markers label (clearAll s) = []"
proof -
  have "List.map_filter (unit_position label) (filter (\<lambda>obj. \<not> removable obj) objs) = []"
    for objs
  proof (induction objs)
    case Nil
    show ?case by (simp add: List.map_filter_simps)
  next
    case (Cons obj objs)
    then show ?case using assms
      by (cases obj) (auto simp add: List.map_filter_simps removable_def)
  qed
  then show ?thesis
    by (simp add: markers_def clearAll_def updateSaveButton_def Let_def)
qed

lemma markers_unchanged:
  "markers label (selectTool t s) = markers label s"
  "markers label (savePlacement outcome s) = markers label s"
  "markers label (closeSuccessModal s) = markers label s"
  by (simp_all add: markers_def selectTool_def savePlacement_def closeSuccessModal_def
      Let_def split: upload_outcome.splits)

lemma flags_unchanged:
  "iduPlaced (selectTool t s) = iduPlaced s" "oduPlaced (selectTool t s) = oduPlaced s"
  "iduPlaced (savePlacement outcome s) = iduPlaced s"
  "oduPlaced (savePlacement outcome s) = oduPlaced s"
  "iduPlaced (closeSuccessModal s) = iduPlaced s" "oduPlaced (closeSuccessModal s) = oduPlaced s"
  "iduPlaced (addLinePoint x y s) = iduPlaced s" "oduPlaced (addLinePoint x y s) = oduPlaced s"
  by (simp_all add: selectTool_def savePlacement_def closeSuccessModal_def addLinePoint_def
      finishLine_def updateSaveButton_def Let_def split: upload_outcome.splits)

text \<open>A tap on empty canvas with a unit tool: what it leaves behind.\<close>

lemma tap_idu:
  assumes "currentTool s = Idu"
  shows "markers ''IDU'' (handleCanvasTap None x y s) = [(x, y)]"
    and "markers ''ODU'' (handleCanvasTap None x y s) = markers ''ODU'' s"
    and "iduPlaced (handleCanvasTap None x y s)"
    and "oduPlaced (handleCanvasTap None x y s) = oduPlaced s"
    and "\<not> saveDisabled (handleCanvasTap None x y s)"
    and "currentTool (handleCanvasTap None x y s) = Idu"
proof -
  have m: "markers l (handleCanvasTap None x y s) = markers l (placeUnit ''IDU'' x y ''#3b82f6'' s)"
    for l
    using assms by (simp add: markers_def handleCanvasTap_def updateSaveButton_def)
  show "markers ''IDU'' (handleCanvasTap None x y s) = [(x, y)]"
    by (simp only: m markers_placeUnit_same)
  show "markers ''ODU'' (handleCanvasTap None x y s) = markers ''ODU'' s"
    unfolding m by (rule markers_placeUnit_other) simp
  show "iduPlaced (handleCanvasTap None x y s)"
    "oduPlaced (handleCanvasTap None x y s) = oduPlaced s"
    "\<not> saveDisabled (handleCanvasTap None x y s)"
    "currentTool (handleCanvasTap None x y s) = Idu"
    using assms by (simp_all add: handleCanvasTap_def updateSaveButton_def placeUnit_def)
qed

lemma tap_odu:
  assumes "currentTool s = Odu"
  shows "markers ''ODU'' (handleCanvasTap None x y s) = [(x, y)]"
    and "markers ''IDU'' (handleCanvasTap None x y s) = markers ''IDU'' s"
    and "oduPlaced (handleCanvasTap None x y s)"
    and "iduPlaced (handleCanvasTap None x y s) = iduPlaced s"
    and "\<not> saveDisabled (handleCanvasTap None x y s)"
    and "currentTool (handleCanvasTap None x y s) = Odu"
proof -
  have m: "markers l (handleCanvasTap None x y s) = markers l (placeUnit ''ODU'' x y ''#f97316'' s)"
    for l
    using assms by (simp add: markers_def handleCanvasTap_def updateSaveButton_def)
  show "markers ''ODU'' (handleCanvasTap None x y s) = [(x, y)]"
    by (simp only: m markers_placeUnit_same)
  show "markers ''IDU'' (handleCanvasTap None x y s) = markers ''IDU'' s"
    unfolding m by (rule markers_placeUnit_other) simp
  show "oduPlaced (handleCanvasTap None x y s)"
    "iduPlaced (handleCanvasTap None x y s) = iduPlaced s"
    "\<not> saveDisabled (handleCanvasTap None x y s)"
    "currentTool (handleCanvasTap None x y s) = Odu"
    using assms by (simp_all add: handleCanvasTap_def updateSaveButton_def placeUnit_def)
qed

subsection \<open>The invariant of a session\<close>

lemma invariant_tap:
  assumes "session_invariant s"
  shows "session_invariant (handleCanvasTap target x y s)"
proof (cases "target = None")
  case False
  with assms show ?thesis by (simp add: handleCanvasTap_def)
next
  case True
  show ?thesis
  proof (cases "currentTool s")
    case Idu
    with assms show ?thesis
      unfolding True session_invariant_def by (simp add: tap_idu)
  next
    case Odu
    with assms show ?thesis
      unfolding True session_invariant_def by (simp add: tap_odu)
  next
    case Line
    with assms show ?thesis
      unfolding True session_invariant_def
      by (simp add: tap_line markers_addLinePoint flags_unchanged)
  qed
qed

lemma invariant_clearAll: "session_invariant (clearAll s)"
proof -
  have "\<not> iduPlaced (clearAll s)" "\<not> oduPlaced (clearAll s)"
    by (simp_all add: clearAll_def updateSaveButton_def)
  then show ?thesis
    by (simp add: session_invariant_def markers_clearAll)
qed

lemma invariant_handle:
  assumes "session_invariant s"
  shows "session_invariant (handle s e)"
proof (cases e)
  case (Tap target x y)
  with assms show ?thesis by (simp add: invariant_tap)
next
  case ClearAll
  then show ?thesis by (simp add: invariant_clearAll)
next
  case (SelectTool t)
  with assms show ?thesis
    by (simp add: session_invariant_def markers_unchanged flags_unchanged)
next
  case (SavePlacement outcome)
  with assms show ?thesis
    by (simp add: session_invariant_def markers_unchanged flags_unchanged)
next
  case CloseSuccessModal
  with assms show ?thesis
    by (simp add: session_invariant_def markers_unchanged flags_unchanged)
qed

lemma invariant_run: "session_invariant s \<Longrightarrow> session_invariant (run events s)"
  unfolding run_def by (induction events arbitrary: s) (simp_all add: invariant_handle)

lemma markers_background:
  "list_all (\<lambda>obj. obj = Background) objs \<Longrightarrow> List.map_filter (unit_position label) objs = []"
  by (induction objs) (simp_all add: List.map_filter_simps)

lemma invariant_initial: "initial s \<Longrightarrow> session_invariant s"
  by (simp add: initial_def session_invariant_def markers_def markers_background)

lemma initial_fresh: "initial fresh_session"
  by (simp add: initial_def fresh_session_def)

text \<open>
  C5. In every session, two taps on empty canvas with the indoor-unit tool (with the
  outdoor-unit tool) leave exactly one marker of that unit type on the canvas, at the
  coordinates of the second tap. In every session reached from a freshly loaded page by
  any sequence of events there is at most one indoor and at most one outdoor marker.
\<close>

theorem one_marker_per_unit:
  "(currentTool s = Idu \<longrightarrow>
      markers ''IDU'' (handleCanvasTap None x2 y2 (handleCanvasTap None x1 y1 s)) = [(x2, y2)]) \<and>
   (currentTool s = Odu \<longrightarrow>
      markers ''ODU'' (handleCanvasTap None x2 y2 (handleCanvasTap None x1 y1 s)) = [(x2, y2)]) \<and>
   (initial s0 \<longrightarrow>
      length (markers ''IDU'' (run events s0)) \<le> 1 \<and>
      length (markers ''ODU'' (run events s0)) \<le> 1)"
proof -
  have "session_invariant (run events s0)" if "initial s0"
    using that by (simp add: invariant_initial invariant_run)
  then show ?thesis
    by (simp add: session_invariant_def tap_idu tap_odu)
qed

theorem one_marker_per_unit_witness:
  "currentTool fresh_session = Idu \<and>
   markers ''IDU'' (handleCanvasTap None 30 40 (handleCanvasTap None 10 20 fresh_session))
     = [(30, 40)] \<and>
   currentTool (selectTool Odu fresh_session) = Odu \<and>
   markers ''ODU'' (handleCanvasTap None 7 8 (handleCanvasTap None 5 6
      (selectTool Odu fresh_session))) = [(7, 8)] \<and>
   initial fresh_session \<and>
   length (markers ''IDU'' (run [Tap None 10 20, Tap None 30 40, SelectTool Odu] fresh_session))
     \<le> 1"
proof -
  have t1: "currentTool fresh_session = Idu"
    by (simp add: fresh_session_def)
  have t2: "currentTool (selectTool Odu fresh_session) = Odu"
    by (simp add: selectTool_def)
  show ?thesis
    using one_marker_per_unit [of fresh_session 30 40 10 20 fresh_session
        "[Tap None 10 20, Tap None 30 40, SelectTool Odu]"]
      one_marker_per_unit [of "selectTool Odu fresh_session" 7 8 5 6 fresh_session "[]"]
      initial_fresh t1 t2
    by simp
qed

text \<open>
  C7. In every session reached from a freshly loaded page: after a tap that places a
  marker, after a tap that adds a point to the path, and after a clear, the save button
  is enabled if and only if an indoor or an outdoor marker is on the canvas. So a
  session left with a path and no marker cannot be saved.
\<close>

theorem save_eligibility_after_mutation:
  assumes "initial s0" and "s = run events s0"
  shows "(currentTool s \<noteq> Line \<longrightarrow>
            (save_eligible (handleCanvasTap None x y s) \<longleftrightarrow>
               has_marker (handleCanvasTap None x y s))) \<and>
         (\<not> (1 < length (linePoints s) \<and> distance x y (last (linePoints s)) < 30) \<longrightarrow>
            linePoints (addLinePoint x y s) = linePoints s @ [(x, y)] \<and>
            (save_eligible (addLinePoint x y s) \<longleftrightarrow> has_marker (addLinePoint x y s))) \<and>
         (save_eligible (clearAll s) \<longleftrightarrow> has_marker (clearAll s))"
proof -
  have inv: "session_invariant s"
    using assms by (simp add: invariant_initial invariant_run)
  have tap: "save_eligible (handleCanvasTap None x y s) \<longleftrightarrow>
        has_marker (handleCanvasTap None x y s)" if "currentTool s \<noteq> Line"
    using that
    by (cases "currentTool s") (simp_all add: save_eligible_def has_marker_def tap_idu tap_odu)
  have add: "linePoints (addLinePoint x y s) = linePoints s @ [(x, y)] \<and>
      (save_eligible (addLinePoint x y s) \<longleftrightarrow> has_marker (addLinePoint x y s))"
    if "\<not> (1 < length (linePoints s) \<and> distance x y (last (linePoints s)) < 30)"
  proof -
    have "saveDisabled (addLinePoint x y s) \<longleftrightarrow> \<not> (iduPlaced s \<or> oduPlaced s)"
      and "linePoints (addLinePoint x y s) = linePoints s @ [(x, y)]"
      using that by (auto simp add: addLinePoint_def updateSaveButton_def Let_def)
    with inv show ?thesis
      by (simp add: save_eligible_def has_marker_def markers_addLinePoint session_invariant_def)
  qed
  have clear: "save_eligible (clearAll s) \<longleftrightarrow> has_marker (clearAll s)"
  proof -
    have "saveDisabled (clearAll s)"
      by (simp add: clearAll_def updateSaveButton_def)
    then show ?thesis
      by (simp add: save_eligible_def has_marker_def markers_clearAll)
  qed
  from tap add clear show ?thesis by blast
qed

text \<open>
  On a fresh page a tap with the indoor-unit tool enables saving; a second point added
  to a path with no marker leaves it disabled; so does a clear after a marker was placed.
\<close>

theorem save_eligibility_after_mutation_witness:
  "initial fresh_session \<and>
   currentTool (run [] fresh_session) \<noteq> Line \<and>
   has_marker (handleCanvasTap None 10 20 (run [] fresh_session)) \<and>
   save_eligible (handleCanvasTap None 10 20 (run [] fresh_session)) \<and>
   linePoints (addLinePoint 100 0 (run [SelectTool Line, Tap None 0 0] fresh_session)) =
     [(0, 0), (100, 0)] \<and>
   \<not> has_marker (addLinePoint 100 0 (run [SelectTool Line, Tap None 0 0] fresh_session)) \<and>
   \<not> save_eligible (addLinePoint 100 0 (run [SelectTool Line, Tap None 0 0] fresh_session)) \<and>
   \<not> has_marker (clearAll (run [Tap None 10 20] fresh_session)) \<and>
   \<not> save_eligible (clearAll (run [Tap None 10 20] fresh_session))"
proof -
  have t: "currentTool (run [] fresh_session) = Idu"
    by (simp add: run_def fresh_session_def)
  have m: "has_marker (handleCanvasTap None 10 20 (run [] fresh_session))"
    using t by (simp add: has_marker_def tap_idu)
  have one: "run [SelectTool Line, Tap None 0 0] fresh_session = one_point_session"
    by (simp add: one_point_session_def)
  have p: "\<not> (1 < length (linePoints one_point_session) \<and>
      distance 100 0 (last (linePoints one_point_session)) < 30)"
    by (simp add: one_point_session_eval)
  have n: "\<not> has_marker (addLinePoint 100 0 one_point_session)"
    by (simp add: has_marker_def markers_addLinePoint)
      (simp add: markers_def one_point_session_eval List.map_filter_simps)
  have c: "\<not> has_marker (clearAll (run [Tap None 10 20] fresh_session))"
    by (simp add: has_marker_def markers_clearAll)
  show ?thesis
    using save_eligibility_after_mutation [OF initial_fresh refl, of "[]" 10 20]
      save_eligibility_after_mutation [OF initial_fresh refl,
        of "[SelectTool Line, Tap None 0 0]" 100 0]
      save_eligibility_after_mutation [OF initial_fresh refl, of "[Tap None 10 20]" 0 0]
      initial_fresh t m p n c
    by (simp add: one one_point_session_eval)
qed

subsection \<open>A failed export\<close>

text \<open>
  C6. When the save button is enabled and the export fails (the upload is answered with
  a status that is not a success, or the network or anything else in the export
  throws), \<open>savePlacement\<close> leaves the canvas, the path, the two marker flags and the
  active tool as they were, and the save button is enabled again.
\<close>

theorem failed_upload_keeps_session:
  assumes "\<not> saveDisabled s" and "outcome \<noteq> Uploaded"
  shows "objects (savePlacement outcome s) = objects s \<and>
         linePoints (savePlacement outcome s) = linePoints s \<and>
         iduPlaced (savePlacement outcome s) = iduPlaced s \<and>
         oduPlaced (savePlacement outcome s) = oduPlaced s \<and>
         currentTool (savePlacement outcome s) = currentTool s \<and>
         \<not> saveDisabled (savePlacement outcome s)"
  using assms by (cases outcome) (simp_all add: savePlacement_def)

theorem failed_upload_keeps_session_witness:
  "\<not> saveDisabled (handleCanvasTap None 10 20 fresh_session) \<and>
   UploadThrew ''Failed to fetch'' \<noteq> Uploaded \<and>
   objects (savePlacement (UploadThrew ''Failed to fetch'') (handleCanvasTap None 10 20 fresh_session))
     = [Background, UnitGroup ''IDU'' 10 20 ''#3b82f6''] \<and>
   \<not> saveDisabled
       (savePlacement (UploadThrew ''Failed to fetch'') (handleCanvasTap None 10 20 fresh_session))"
proof -
  have e: "\<not> saveDisabled (handleCanvasTap None 10 20 fresh_session)"
    by (simp add: tap_idu fresh_session_def)
  have o: "objects (handleCanvasTap None 10 20 fresh_session) =
      [Background, UnitGroup ''IDU'' 10 20 ''#3b82f6'']"
    by (simp add: handleCanvasTap_def fresh_session_def placeUnit_def updateSaveButton_def)
  show ?thesis
    using failed_upload_keeps_session [OF e, of "UploadThrew ''Failed to fetch''"] e o
    by simp
qed

section \<open>Properties of the Installation Gateway\<close>

lemma upload_resolved_header:
  assumes "uploadFileToHubSpot accessToken upload = Resolved r"
  shows "\<not> list_ex invalid_header_char (''Bearer '' @ accessToken)"
  using assms
  by (auto simp add: uploadFileToHubSpot_def request_throws_def split: if_splits)

lemma association_swallowed:
  assumes "\<not> list_ex invalid_header_char (''Bearer '' @ accessToken)"
    and "\<not> list_ex invalid_path_char (association_path engagementId installationId)"
    and "note_created note engagementId" and "association_failed association"
  shows "attachFileToInstallation installationId accessToken note association = Resolved ()"
proof -
  have sent: "request_throws (association_path engagementId installationId) accessToken = None"
    "request_throws ''/engagements/v1/engagements'' accessToken = None"
    using assms(1,2) by (simp_all add: request_throws_def invalid_path_char_def)
  have "associateEngagementToInstallation engagementId installationId accessToken association =
      Resolved ()"
    using assms(4)
    by (auto simp add: associateEngagementToInstallation_def sent association_failed_def
        split: request_end.splits)
  with assms(3) show ?thesis
    by (auto simp add: attachFileToInstallation_def sent note_created_def
        split: request_end.splits parsed.splits)
qed

text \<open>
  C3, as the code has it. Let \<open>requireAuth\<close> accept the request, the CRM token be
  configured, an image be present and the upload of the image succeed. If the note is
  created, the request that associates it with the installation record can be made (its
  path, built from the id of the note and the id of the installation, holds no space,
  control character or character above U+00FF) and that request fails (a status outside
  200 to 299, or an error event), the endpoint answers 200 with the success body, the
  file id and the file name. If \<open>attachFileToInstallation\<close> rejects, as it does when the
  request that creates the note fails, the endpoint answers 500 with the message of the
  error.
\<close>

theorem association_failure_still_success:
  assumes "requireAuth hmac secret installationId token now = Inr ()"
    and "\<not> falsy HUBSPOT_TOKEN" and "file \<noteq> None"
    and "uploadFileToHubSpot (the HUBSPOT_TOKEN) upload = Resolved (fileId, url)"
  shows "(note_created note engagementId \<and>
          \<not> list_ex invalid_path_char (association_path engagementId installationId) \<and>
          association_failed association \<longrightarrow>
            placement_endpoint hmac secret token now HUBSPOT_TOKEN installationId file timestamp
              upload note association =
            Response 200
              (SavedBody fileId (''site-plan-'' @ installationId @ ''-'' @ timestamp @ ''.png'')
                 ''Site plan saved successfully'')) \<and>
         (attachFileToInstallation installationId (the HUBSPOT_TOKEN) note association =
            Rejected m \<longrightarrow>
            placement_endpoint hmac secret token now HUBSPOT_TOKEN installationId file timestamp
              upload note association = save_error m)"
proof -
  have "attachFileToInstallation installationId (the HUBSPOT_TOKEN) note association = Resolved ()"
    if "note_created note engagementId"
      "\<not> list_ex invalid_path_char (association_path engagementId installationId)"
      "association_failed association"
    using upload_resolved_header [OF assms(4)] that by (intro association_swallowed)
  with assms show ?thesis
    by (auto simp add: placement_endpoint_def placement_handler_def Let_def)
qed

theorem association_failure_still_success_witness:
  "requireAuth sample_hmac None ''4711'' None 0 = Inr () \<and>
   \<not> falsy (Some ''pat'') \<and> Some ''png'' \<noteq> None \<and>
   uploadFileToHubSpot ''pat'' stored_upload = Resolved (Some ''f1'', Some ''u1'') \<and>
   placement_endpoint sample_hmac None None 0 (Some ''pat'') ''4711'' (Some ''png'') ''T''
     stored_upload
     (Responded 200 ''{}'' (Parsed \<lparr>engagement = Some (Some ''e1''), note_message = None\<rparr>))
     (Responded 404 ''no'' (ParseError ''bad'')) =
   Response 200 (SavedBody (Some ''f1'') ''site-plan-4711-T.png'' ''Site plan saved successfully'') \<and>
   placement_endpoint sample_hmac None None 0 (Some ''pat'') ''4711'' (Some ''png'') ''T''
     stored_upload (RequestError ''socket hang up'') (RequestError ''unused'') =
   save_error ''socket hang up''"
proof -
  have a: "requireAuth sample_hmac None ''4711'' None 0 = Inr ()"
    by (simp add: requireAuth_def verifySignedToken_def falsy_def)
  have t: "\<not> falsy (Some ''pat'')" "Some ''png'' \<noteq> None"
    by (simp_all add: falsy_def)
  have h: "request_throws path ''pat'' = None" if "\<not> list_ex invalid_path_char path" for path
    using that by (simp add: request_throws_def invalid_header_char_def)
  have u: "uploadFileToHubSpot (the (Some ''pat'')) stored_upload = Resolved (Some ''f1'', Some ''u1'')"
    by (simp add: uploadFileToHubSpot_def stored_upload_def h invalid_path_char_def)
  have n: "note_created
      (Responded 200 ''{}'' (Parsed \<lparr>engagement = Some (Some ''e1''), note_message = None\<rparr>))
      (Some ''e1'')"
    "association_failed (Responded 404 ''no'' (ParseError ''bad''))"
    "\<not> list_ex invalid_path_char (association_path (Some ''e1'') ''4711'')"
    by (simp_all add: note_created_def association_failed_def association_path_def
        template_text_def invalid_path_char_def)
  have r: "attachFileToInstallation ''4711'' (the (Some ''pat'')) (RequestError ''socket hang up'')
      (RequestError ''unused'') = Rejected ''socket hang up''"
    by (simp add: attachFileToInstallation_def h invalid_path_char_def)
  show ?thesis
    using association_failure_still_success [OF a t u,
        of "Responded 200 ''{}'' (Parsed \<lparr>engagement = Some (Some ''e1''), note_message = None\<rparr>)"
           "Some ''e1''" "Responded 404 ''no'' (ParseError ''bad'')" "''T''"]
      association_failure_still_success [OF a t u,
        of "RequestError ''socket hang up''" _ "RequestError ''unused''" "''T''" "''socket hang up''"]
      a t u n r
    by simp
qed

text \<open>
  The image is stored, and the request that creates the note is answered 500 with the
  message ``internal error'': the endpoint answers 500 with that message.
\<close>

theorem note_failure_is_surfaced:
  "uploadFileToHubSpot ''pat'' stored_upload = Resolved (Some ''f1'', Some ''u1'') \<and>
   placement_endpoint sample_hmac None None 0 (Some ''pat'') ''4711'' (Some ''png'') ''T''
     stored_upload
     (Responded 500 ''{}'' (Parsed \<lparr>engagement = None, note_message = Some ''internal error''\<rparr>))
     (RequestError ''unused'') =
   Response 500 (ErrorBody ''internal error'')"
proof -
  have h: "request_throws path ''pat'' = None" if "\<not> list_ex invalid_path_char path" for path
    using that by (simp add: request_throws_def invalid_header_char_def)
  show ?thesis
    by (simp add: placement_endpoint_def requireAuth_def verifySignedToken_def falsy_def
        placement_handler_def uploadFileToHubSpot_def stored_upload_def
        attachFileToInstallation_def http_error_message_def save_error_def h
        invalid_path_char_def)
qed

end
